theory Spec2Isabelle
  imports Complex_Main
begin

section \<open>Numbers\<close>

text \<open>
  The engine computes with Python numbers: balances are floats read from chat text,
  percentages and multipliers come from the JSON configuration, counters and rounded
  bets are unbounded integers. Every finite double is a rational number, so amounts are
  values of \<open>rat\<close>, and integers are values of \<open>int\<close>. The overflow of a float to
  infinity is outside the model.

  A product or a quotient of two doubles is the exact result rounded to a double. The bet
  is rounded to a whole number right after such products, so the model does not fix these
  two operations: they are the parameter \<open>ar\<close> of the bet computation, and what is
  proved for every \<open>ar\<close> holds for the operations of the machine. \<open>exact_arith\<close>
  computes without rounding; it is used for concrete runs at values where the doubles
  give the same bets.

  Python 3's built-in \<open>round(x)\<close> with one argument returns an integer and rounds a
  tie to the even neighbour.
\<close>

record arith =
  fmul :: "rat \<Rightarrow> rat \<Rightarrow> rat"
  fdiv :: "rat \<Rightarrow> rat \<Rightarrow> rat"

definition exact_arith :: arith where
  "exact_arith = \<lparr> fmul = (\<lambda>x y. x * y), fdiv = (\<lambda>x y. x / y) \<rparr>"

definition round_py :: "rat \<Rightarrow> int" where
  "round_py x =
     (let f = \<lfloor>x\<rfloor>; r = x - of_int f
      in if r < 1 / 2 then f
         else if 1 / 2 < r then f + 1
         else if even f then f else f + 1)"

section \<open>Configuration and session state\<close>

text \<open>
  The configuration is the nested dictionary of \<open>config_manager.py\<close>; only the two
  groups the engine reads are modelled.
\<close>

record betting_config =
  initial_bet_percentage :: rat
  loss_multiplier :: rat
  min_bet_amount :: rat
  max_consecutive_losses :: int

record risk_config =
  enable_stop_loss :: bool
  stop_loss_percentage :: rat
  enable_profit_target :: bool
  profit_target_percentage :: rat
  enable_max_bet_limit :: bool
  max_bet_percentage :: rat
  enable_session_time_limit :: bool
  session_time_limit_hours :: rat

record config =
  betting :: betting_config
  risk_management :: risk_config

text \<open>The values returned by \<open>ConfigManager.get_default_config\<close>.\<close>

definition default_config :: config where
  "default_config =
     \<lparr> betting = \<lparr> initial_bet_percentage = 1, loss_multiplier = 5 / 2,
                   min_bet_amount = 1, max_consecutive_losses = 10 \<rparr>,
       risk_management = \<lparr> enable_stop_loss = True, stop_loss_percentage = 50,
                   enable_profit_target = False, profit_target_percentage = 100,
                   enable_max_bet_limit = True, max_bet_percentage = 10,
                   enable_session_time_limit = False, session_time_limit_hours = 24 \<rparr> \<rparr>"

text \<open>
  The fields of \<open>BettingEngine\<close>. \<open>current_bet\<close> only ever holds \<open>0\<close> or the result of
  \<open>round\<close>, an integer. \<open>session_start_time\<close> is a time stamp in seconds.
\<close>

record engine =
  current_cash :: rat
  starting_balance :: rat
  current_bet :: int
  consecutive_losses :: int
  total_bets :: int
  total_wins :: int
  total_losses :: int
  total_profit :: rat
  session_start_time :: rat
  stop_loss_triggered :: bool
  profit_target_reached :: bool
  max_losses_reached :: bool

text \<open>\<open>BettingEngine.__init__\<close>, constructed at time \<open>t0\<close>.\<close>

definition init_engine :: "rat \<Rightarrow> engine" where
  "init_engine t0 =
     \<lparr> current_cash = 0, starting_balance = 0, current_bet = 0, consecutive_losses = 0,
       total_bets = 0, total_wins = 0, total_losses = 0, total_profit = 0,
       session_start_time = t0,
       stop_loss_triggered = False, profit_target_reached = False,
       max_losses_reached = False \<rparr>"

section \<open>Bet sizing\<close>

text \<open>
  \<open>calculate_bet_amount\<close>: the base bet, the lower clamp, the upper clamp when the
  limit is enabled, and the rounding last.
\<close>

definition base_bet :: "arith \<Rightarrow> config \<Rightarrow> engine \<Rightarrow> rat" where
  "base_bet ar cfg s =
     (if consecutive_losses s = 0
      then fmul ar (current_cash s) (fdiv ar (initial_bet_percentage (betting cfg)) 100)
      else fmul ar (of_int (current_bet s)) (loss_multiplier (betting cfg)))"

definition max_bet :: "arith \<Rightarrow> config \<Rightarrow> engine \<Rightarrow> rat" where
  "max_bet ar cfg s =
     fmul ar (current_cash s) (fdiv ar (max_bet_percentage (risk_management cfg)) 100)"

definition calculate_bet_amount :: "arith \<Rightarrow> config \<Rightarrow> engine \<Rightarrow> int" where
  "calculate_bet_amount ar cfg s =
     (let bet_amount = base_bet ar cfg s;
          bet_amount = max bet_amount (min_bet_amount (betting cfg));
          bet_amount = (if enable_max_bet_limit (risk_management cfg)
                        then min bet_amount (max_bet ar cfg s) else bet_amount)
      in round_py bet_amount)"

text \<open>
  The orchestrator's cap in \<open>run_betting_strategy\<close>: a bet above the balance just read
  is replaced by that balance.
\<close>

definition cap_to_balance :: "int \<Rightarrow> rat \<Rightarrow> rat" where
  "cap_to_balance bet_amount cash = (if of_int bet_amount > cash then cash else of_int bet_amount)"

section \<open>Chat text\<close>

text \<open>
  Messages are modelled as ASCII text: \<open>str.lower\<close> maps \<open>A\<close>..\<open>Z\<close> to \<open>a\<close>..\<open>z\<close> and
  leaves every other character alone, \<open>\d\<close> is one of the ten ASCII digits and \<open>\s\<close>
  is one of the ASCII characters Python counts as white space (codes 9 to 13, 28 to 31
  and 32).
\<close>

definition lower_char :: "char \<Rightarrow> char" where
  "lower_char c =
     (case map_of (zip ''ABCDEFGHIJKLMNOPQRSTUVWXYZ'' ''abcdefghijklmnopqrstuvwxyz'') c of
        Some d \<Rightarrow> d | None \<Rightarrow> c)"

definition lower :: "string \<Rightarrow> string" where
  "lower s = map lower_char s"

definition is_digit :: "char \<Rightarrow> bool" where
  "is_digit c = (c \<in> set ''0123456789'')"

definition is_space :: "char \<Rightarrow> bool" where
  "is_space c =
     (c \<in> set [CHR 0x09, CHR 0x0A, CHR 0x0B, CHR 0x0C, CHR 0x0D,
               CHR 0x1C, CHR 0x1D, CHR 0x1E, CHR 0x1F, CHR 0x20])"

text \<open>\<open>s.startswith(p)\<close>, and Python's \<open>p in s\<close> on strings.\<close>

definition starts_with :: "string \<Rightarrow> string \<Rightarrow> bool" where
  "starts_with p s = (take (length p) s = p)"

primrec contains :: "string \<Rightarrow> string \<Rightarrow> bool" where
  "contains p [] = (p = [])"
| "contains p (c # cs) = (starts_with p (c # cs) \<or> contains p cs)"

text \<open>\<open>s.replace(',', '')\<close>.\<close>

definition strip_commas :: "string \<Rightarrow> string" where
  "strip_commas s = filter (\<lambda>c. c \<noteq> CHR '','') s"

text \<open>
  \<open>float(cash_str)\<close> on a string of ASCII digits: its decimal value. This is what
  Python returns up to \<open>2^53\<close>, where every whole number is a double; a larger value
  is rounded to a double by Python and not by the model. (For the empty string Python
  raises; the patterns below never produce it.)
\<close>

definition digit_val :: "char \<Rightarrow> rat" where
  "digit_val c = (case map_of (zip ''0123456789'' [0, 1, 2, 3, 4, 5, 6, 7, 8, 9]) c of
                    Some d \<Rightarrow> d | None \<Rightarrow> 0)"

definition float_of_digits :: "string \<Rightarrow> rat" where
  "float_of_digits s = foldl (\<lambda>a c. 10 * a + digit_val c) 0 s"

text \<open>\<open>str(n)\<close> for an integer.\<close>

fun str_nat :: "nat \<Rightarrow> string" where
  "str_nat n =
     (if n < 10 then [''0123456789'' ! n]
      else str_nat (n div 10) @ [''0123456789'' ! (n mod 10)])"

declare str_nat.simps [simp del]

definition str_int :: "int \<Rightarrow> string" where
  "str_int i = (if i < 0 then CHR ''-'' # str_nat (nat (- i)) else str_nat (nat i))"

subsection \<open>The two regular expressions\<close>

text \<open>
  Both patterns contain the number token \<open>(\d+(?:,\d+)*)\<close>. \<open>number_tail\<close> is the
  greedy loop \<open>(?:,\d+)*\<close> and \<open>match_number\<close> the whole token, returning the token
  and the text after it. The functions take the longest token and never backtrack;
  Python's matcher backtracks, but a shorter token is followed by a digit or a comma of
  the longer one, and what the patterns require next (\<open>\s\<close>, \<open>c\<close>, \<open>*\<close> or \<open>!\<close>)
  is neither, so backtracking never finds a match the greedy choice misses. The same
  holds for the optional \<open>(?:\*\*)?\<close> groups and for \<open>\s*\<close>.
\<close>

function number_tail :: "string \<Rightarrow> string \<times> string" where
  "number_tail [] = ([], [])"
| "number_tail (c # cs) =
     (if c = CHR '','' \<and> takeWhile is_digit cs \<noteq> []
      then (let (t, r) = number_tail (dropWhile is_digit cs)
            in (c # takeWhile is_digit cs @ t, r))
      else ([], c # cs))"
  by pat_completeness auto
termination
  by (relation "measure length") (auto simp: less_Suc_eq_le length_dropWhile_le)

definition match_number :: "string \<Rightarrow> (string \<times> string) option" where
  "match_number s =
     (if takeWhile is_digit s = [] then None
      else (let (t, r) = number_tail (dropWhile is_digit s)
            in Some (takeWhile is_digit s @ t, r)))"

text \<open>
  \<open>(\d+(?:,\d+)*)\s*cowoncy\<close> with \<open>re.IGNORECASE\<close>, tried at the start of \<open>s\<close>;
  the result is group 1.
\<close>

definition match_cash :: "string \<Rightarrow> string option" where
  "match_cash s =
     (case match_number s of
        None \<Rightarrow> None
      | Some (tok, r) \<Rightarrow>
          if starts_with ''cowoncy'' (lower (dropWhile is_space r)) then Some tok else None)"

text \<open>
  \<open>you won (?:\*\*)?(\d+(?:,\d+)*)(?:\*\*)?!!\<close>, tried at the start of \<open>s\<close>; the
  result is group 1.
\<close>

definition skip_stars :: "string \<Rightarrow> string" where
  "skip_stars s = (if starts_with ''**'' s then drop 2 s else s)"

definition match_won :: "string \<Rightarrow> string option" where
  "match_won s =
     (if starts_with ''you won '' s
      then (case match_number (skip_stars (drop 8 s)) of
              None \<Rightarrow> None
            | Some (tok, r) \<Rightarrow> if starts_with ''!!'' (skip_stars r) then Some tok else None)
      else None)"

text \<open>\<open>re.search\<close>: the match at the leftmost position where the pattern matches.\<close>

primrec re_search :: "(string \<Rightarrow> 'a option) \<Rightarrow> string \<Rightarrow> 'a option" where
  "re_search m [] = m []"
| "re_search m (c # cs) = (case m (c # cs) of Some g \<Rightarrow> Some g | None \<Rightarrow> re_search m cs)"

section \<open>The chat client\<close>

text \<open>
  \<open>get_recent_messages\<close> answers with a list of message texts, most recent first, or
  raises. A balance read makes one call; placing a bet makes several, so there the
  client is the sequence of its answers, indexed by the number of the call.
  \<open>send_command\<close> does not touch the engine and is left out.
\<close>

datatype response = Raises | Msgs "string list"

type_synonym client = "nat \<Rightarrow> response"

section \<open>Balance reads and risk checks\<close>

text \<open>
  \<open>_check_risk_conditions\<close>: three independent checks, each of which can only set its
  flag. The two percentages are computed exactly, where the code subtracts, divides and
  multiplies doubles: the two can differ only when a percentage lies within a rounding
  error of its threshold, which moves the read at which a flag is first set and nothing
  else.
\<close>

definition check_stop_loss :: "config \<Rightarrow> engine \<Rightarrow> engine" where
  "check_stop_loss cfg s =
     (if enable_stop_loss (risk_management cfg) \<and> starting_balance s > 0
      then (let loss_percentage = ((starting_balance s - current_cash s) / starting_balance s) * 100
            in if loss_percentage \<ge> stop_loss_percentage (risk_management cfg)
               then s\<lparr>stop_loss_triggered := True\<rparr> else s)
      else s)"

definition check_profit_target :: "config \<Rightarrow> engine \<Rightarrow> engine" where
  "check_profit_target cfg s =
     (if enable_profit_target (risk_management cfg) \<and> starting_balance s > 0
      then (let profit_percentage = (total_profit s / starting_balance s) * 100
            in if profit_percentage \<ge> profit_target_percentage (risk_management cfg)
               then s\<lparr>profit_target_reached := True\<rparr> else s)
      else s)"

definition check_max_losses :: "config \<Rightarrow> engine \<Rightarrow> engine" where
  "check_max_losses cfg s =
     (if consecutive_losses s \<ge> max_consecutive_losses (betting cfg)
      then s\<lparr>max_losses_reached := True\<rparr> else s)"

definition check_risk_conditions :: "config \<Rightarrow> engine \<Rightarrow> engine" where
  "check_risk_conditions cfg s =
     check_max_losses cfg (check_profit_target cfg (check_stop_loss cfg s))"

text \<open>
  The body of \<open>check_cash\<close> once the pattern has matched with group 1 equal to \<open>g\<close>:
  the new balance, the starting balance if it is still \<open>0\<close>, the profit, the risk checks.
\<close>

definition record_cash :: "config \<Rightarrow> string \<Rightarrow> engine \<Rightarrow> rat \<times> engine" where
  "record_cash cfg g s =
     (let cash_str = strip_commas g;
          s = s\<lparr>current_cash := float_of_digits cash_str\<rparr>;
          s = (if starting_balance s = 0 then s\<lparr>starting_balance := current_cash s\<rparr> else s);
          s = s\<lparr>total_profit := current_cash s - starting_balance s\<rparr>;
          s = check_risk_conditions cfg s
      in (current_cash s, s))"

text \<open>The loop of \<open>check_cash\<close> over the messages; \<open>0\<close> when no message matches.\<close>

fun scan_cash :: "config \<Rightarrow> string list \<Rightarrow> engine \<Rightarrow> rat \<times> engine" where
  "scan_cash cfg [] s = (0, s)"
| "scan_cash cfg (message_text # rest) s =
     (if contains ''cowoncy'' (lower message_text)
      then (case re_search match_cash message_text of
              Some g \<Rightarrow> record_cash cfg g s
            | None \<Rightarrow> scan_cash cfg rest s)
      else scan_cash cfg rest s)"

text \<open>\<open>check_cash\<close>: the returned amount and the state after the call.\<close>

definition check_cash :: "config \<Rightarrow> response \<Rightarrow> engine \<Rightarrow> rat \<times> engine" where
  "check_cash cfg resp s =
     (case resp of Raises \<Rightarrow> (0, s) | Msgs messages \<Rightarrow> scan_cash cfg messages s)"

section \<open>Placing a bet\<close>

text \<open>
  \<open>win_amount\<close> in \<open>place_coinflip_bet\<close> is the text of group 1 when the pattern
  matches and the integer \<open>amount * 2\<close> otherwise; it is only written to the log. The
  model returns it beside the Python return value so that it can be observed.
\<close>

datatype py_val = PStr string | PInt int

datatype hit = Won py_val | Lost

text \<open>The inner loop over the refreshed messages: the first message with a marker decides.\<close>

fun scan_updated :: "int \<Rightarrow> string list \<Rightarrow> hit option" where
  "scan_updated amount [] = None"
| "scan_updated amount (updated_text # rest) =
     (let updated_lower = lower updated_text
      in if contains ''you won'' updated_lower
         then Some (Won (case re_search match_won updated_lower of
                           Some g \<Rightarrow> PStr (strip_commas g)
                         | None \<Rightarrow> PInt (amount * 2)))
         else if contains ''lost it all'' updated_lower then Some Lost
         else scan_updated amount rest)"

text \<open>
  The outer loop over the first batch. Each message with the spend and spin phrases
  triggers one more call of the client; \<open>n\<close> is the number of calls made so far and is
  returned with the result.
\<close>

datatype scan = Raised | Found hit | NotFound

fun scan_primary :: "client \<Rightarrow> nat \<Rightarrow> int \<Rightarrow> string list \<Rightarrow> scan \<times> nat" where
  "scan_primary cl n amount [] = (NotFound, n)"
| "scan_primary cl n amount (message_text # rest) =
     (let message_lower = lower message_text
      in if contains ''spent'' message_lower \<and> contains ''coin spins'' message_lower
         then (case cl n of
                 Raises \<Rightarrow> (Raised, Suc n)
               | Msgs updated_messages \<Rightarrow>
                   (case scan_updated amount updated_messages of
                      Some h \<Rightarrow> (Found h, Suc n)
                    | None \<Rightarrow> scan_primary cl (Suc n) amount rest))
         else scan_primary cl n amount rest)"

text \<open>The last loop, over the final batch: a marker counts only beside \<open>str(amount)\<close>.\<close>

fun scan_final :: "int \<Rightarrow> string list \<Rightarrow> hit option" where
  "scan_final amount [] = None"
| "scan_final amount (message_text # rest) =
     (let message_lower = lower message_text
      in if contains ''you won'' message_lower \<and> contains (str_int amount) message_text
         then Some (Won (PInt (amount * 2)))
         else if contains ''lost it all'' message_lower \<and> contains (str_int amount) message_text
         then Some Lost
         else scan_final amount rest)"

text \<open>The counter updates of the win and loss branches, with the value returned.\<close>

fun settle :: "hit \<Rightarrow> engine \<Rightarrow> bool option \<times> py_val option \<times> engine" where
  "settle (Won w) s =
     (let s = s\<lparr>total_wins := total_wins s + 1\<rparr>;
          s = (if consecutive_losses s > 0 then s\<lparr>consecutive_losses := 0\<rparr> else s)
      in (Some True, Some w, s))"
| "settle Lost s =
     (let s = s\<lparr>total_losses := total_losses s + 1\<rparr>;
          s = s\<lparr>consecutive_losses := consecutive_losses s + 1\<rparr>
      in (Some False, None, s))"

text \<open>
  \<open>place_coinflip_bet\<close>: the Python return value (\<open>Some True\<close> a win, \<open>Some False\<close> a
  loss, \<open>None\<close> undetermined), the logged \<open>win_amount\<close>, and the state after the call.
  An exception of the client inside the \<open>try\<close> block gives \<open>None\<close>.
\<close>

definition place_coinflip_bet :: "client \<Rightarrow> rat \<Rightarrow> engine \<Rightarrow> bool option \<times> py_val option \<times> engine" where
  "place_coinflip_bet cl amount s =
     (let amount = round_py amount;
          s = s\<lparr>current_bet := amount\<rparr>;
          s = s\<lparr>total_bets := total_bets s + 1\<rparr>
      in case cl 0 of
           Raises \<Rightarrow> (None, None, s)
         | Msgs messages \<Rightarrow>
             (case scan_primary cl 1 amount messages of
                (Raised, n) \<Rightarrow> (None, None, s)
              | (Found h, n) \<Rightarrow> settle h s
              | (NotFound, n) \<Rightarrow>
                  (case cl n of
                     Raises \<Rightarrow> (None, None, s)
                   | Msgs final_messages \<Rightarrow>
                       (case scan_final amount final_messages of
                          Some h \<Rightarrow> settle h s
                        | None \<Rightarrow> (None, None, s)))))"

section \<open>Stop conditions\<close>

text \<open>\<open>should_stop_betting\<close>, with the time of the call, in seconds, as \<open>now\<close>.\<close>

definition should_stop_betting :: "config \<Rightarrow> rat \<Rightarrow> engine \<Rightarrow> bool \<times> string" where
  "should_stop_betting cfg now s =
     (if stop_loss_triggered s then (True, ''Stop loss triggered'')
      else if profit_target_reached s then (True, ''Profit target reached'')
      else if max_losses_reached s then (True, ''Maximum consecutive losses reached'')
      else if current_cash s \<le> 0 then (True, ''Insufficient funds'')
      else if enable_session_time_limit (risk_management cfg)
              \<and> (now - session_start_time s) / 3600 \<ge> session_time_limit_hours (risk_management cfg)
      then (True, ''Session time limit reached'')
      else (False, []))"

section \<open>Sessions\<close>

text \<open>
  The calls that change the engine, each with the answers of the client it meets, and
  a session as a list of such calls run from left to right.
\<close>

datatype op = CheckCash response | PlaceBet client rat | RiskCheck

fun step :: "config \<Rightarrow> op \<Rightarrow> engine \<Rightarrow> engine" where
  "step cfg (CheckCash resp) s = snd (check_cash cfg resp s)"
| "step cfg (PlaceBet cl amount) s = snd (snd (place_coinflip_bet cl amount s))"
| "step cfg RiskCheck s = check_risk_conditions cfg s"

fun run :: "config \<Rightarrow> op list \<Rightarrow> engine \<Rightarrow> engine" where
  "run cfg [] s = s"
| "run cfg (x # xs) s = run cfg xs (step cfg x s)"

text \<open>The values returned by the \<open>place_coinflip_bet\<close> calls of a session, in order.\<close>

fun bet_results :: "config \<Rightarrow> op list \<Rightarrow> engine \<Rightarrow> bool option list" where
  "bet_results cfg [] s = []"
| "bet_results cfg (PlaceBet cl amount # xs) s =
     fst (place_coinflip_bet cl amount s) # bet_results cfg xs (step cfg (PlaceBet cl amount) s)"
| "bet_results cfg (x # xs) s = bet_results cfg xs (step cfg x s)"

section \<open>The strategy loop\<close>

text \<open>
  One iteration of the loop of \<open>run_betting_strategy\<close>, as far as it touches the
  engine: the stop check, the verification pause (\<open>timed_out\<close> says that the wait for
  its resolution failed), the balance read, the bet computation with the cap at the
  balance, and the bet. Delays, logging and random commands are left out.
\<close>

datatype cycle = Stop string | VerificationTimeout | InsufficientFunds | Bet rat "bool option"

record cycle_input =
  now :: rat
  timed_out :: bool
  cash_response :: response
  bet_client :: client

definition betting_cycle ::
  "arith \<Rightarrow> config \<Rightarrow> cycle_input \<Rightarrow> engine \<Rightarrow> cycle \<times> engine" where
  "betting_cycle ar cfg i s =
     (let (should_stop, reason) = should_stop_betting cfg (now i) s
      in if should_stop then (Stop reason, s)
         else if timed_out i then (VerificationTimeout, s)
         else (let (cash, s) = check_cash cfg (cash_response i) s
               in if cash \<le> 0 then (InsufficientFunds, s)
                  else (let bet_amount = cap_to_balance (calculate_bet_amount ar cfg s) cash;
                            (result, w, s) = place_coinflip_bet (bet_client i) bet_amount s
                        in (Bet bet_amount result, s))))"

text \<open>The loop: it goes on after a bet and ends at the first iteration that breaks.\<close>

fun run_cycles ::
  "arith \<Rightarrow> config \<Rightarrow> cycle_input list \<Rightarrow> engine \<Rightarrow> cycle list \<times> engine" where
  "run_cycles ar cfg [] s = ([], s)"
| "run_cycles ar cfg (i # rest) s =
     (case betting_cycle ar cfg i s of
        (Bet b r, s') \<Rightarrow> (let (cs, s'') = run_cycles ar cfg rest s' in (Bet b r # cs, s''))
      | (c, s') \<Rightarrow> ([c], s'))"

text \<open>
  \<open>run_betting_strategy\<close>: the initial balance read, which ends the run when it returns
  nothing positive, and then the loop.
\<close>

definition run_betting_strategy ::
  "arith \<Rightarrow> config \<Rightarrow> response \<Rightarrow> cycle_input list \<Rightarrow> engine
   \<Rightarrow> cycle list \<times> engine" where
  "run_betting_strategy ar cfg initial_response inputs s =
     (let (initial_cash, s) = check_cash cfg initial_response s
      in if initial_cash \<le> 0 then ([], s) else run_cycles ar cfg inputs s)"

section \<open>Scenarios and values named in the statements\<close>

text \<open>
  The value the bet would have if the base bet were rounded first and clamped
  afterwards: \<open>round(previousBet \<times> lossMultiplier)\<close> (or the rounded percentage of
  the balance) clamped to the minimum and, when the limit is enabled, to the cap.
\<close>

definition rounded_then_clamped :: "arith \<Rightarrow> config \<Rightarrow> engine \<Rightarrow> rat" where
  "rounded_then_clamped ar cfg s =
     (let b = max (of_int (round_py (base_bet ar cfg s))) (min_bet_amount (betting cfg))
      in if enable_max_bet_limit (risk_management cfg) then min b (max_bet ar cfg s) else b)"

definition losing_state :: engine where
  "losing_state = (init_engine 0)\<lparr>current_cash := 1005, current_bet := 63, consecutive_losses := 3\<rparr>"

definition recovery_state :: engine where
  "recovery_state = (init_engine 0)\<lparr>current_cash := 1000, current_bet := 25, consecutive_losses := 2\<rparr>"

definition poor_state :: engine where
  "poor_state = (init_engine 0)\<lparr>current_cash := 5\<rparr>"

definition fresh_state :: engine where
  "fresh_state = (init_engine 0)\<lparr>current_cash := 1000\<rparr>"

definition all_flags_state :: engine where
  "all_flags_state =
     (init_engine 0)\<lparr>stop_loss_triggered := True, profit_target_reached := True,
                      max_losses_reached := True\<rparr>"

definition timed_config :: config where
  "timed_config =
     default_config\<lparr>risk_management :=
       (risk_management default_config)\<lparr>enable_session_time_limit := True\<rparr>\<rparr>"

text \<open>
  A thousands-separated integer token: a non-empty group of digits followed by any
  number of groups, each after a comma.
\<close>

definition digit_group :: "string \<Rightarrow> bool" where
  "digit_group g = (g \<noteq> [] \<and> list_all is_digit g)"

definition comma_groups :: "string list \<Rightarrow> string" where
  "comma_groups gs = concat (map (\<lambda>h. CHR '','' # h) gs)"

definition join_groups :: "string \<Rightarrow> string list \<Rightarrow> string" where
  "join_groups g gs = g @ comma_groups gs"

text \<open>The state after \<open>place_coinflip_bet\<close> has rounded the amount and counted the bet.\<close>

definition placed :: "rat \<Rightarrow> engine \<Rightarrow> engine" where
  "placed amount s = s\<lparr>current_bet := round_py amount, total_bets := total_bets s + 1\<rparr>"

text \<open>A balance message of the usual shape, from the groups of digits of the amount.\<close>

definition balance_message :: "string \<Rightarrow> string list \<Rightarrow> string" where
  "balance_message g gs = ''You have '' @ join_groups g gs @ '' cowoncy''"

text \<open>A session that reads 1,000 and then 400, and the read of 1,000 that follows it.\<close>

definition losing_session :: "op list" where
  "losing_session =
     [CheckCash (Msgs [balance_message ''1'' [''000'']]),
      CheckCash (Msgs [balance_message ''400'' []])]"

definition recovering_session :: "op list" where
  "recovering_session = [CheckCash (Msgs [balance_message ''1'' [''000'']]), RiskCheck]"


text \<open>A client whose every call raises, and one that always answers with an empty batch.\<close>

definition silent_client :: client where
  "silent_client = (\<lambda>n. Raises)"

definition empty_client :: client where
  "empty_client = (\<lambda>n. Msgs [])"

text \<open>
  The phrases \<open>place_coinflip_bet\<close> looks for: a message about the bet carries both
  \<open>spent\<close> and \<open>coin spins\<close>; an outcome marker is \<open>you won\<close> or \<open>lost it all\<close>.
\<close>

definition spend_spin :: "string \<Rightarrow> bool" where
  "spend_spin m = (contains ''spent'' (lower m) \<and> contains ''coin spins'' (lower m))"

definition no_marker :: "string \<Rightarrow> bool" where
  "no_marker m = (\<not> contains ''you won'' (lower m) \<and> \<not> contains ''lost it all'' (lower m))"

text \<open>Messages of the game, and clients that answer a bet with them.\<close>

definition spend_message :: string where
  "spend_message = ''**player** spent 100 cowoncy and chose heads. The coin spins...''"

definition loss_message :: string where
  "loss_message = ''The coin spins... and you lost it all... :c''"

definition outcome_client :: "string \<Rightarrow> client" where
  "outcome_client outcome = (\<lambda>n. if n = 0 then Msgs [spend_message] else Msgs [outcome])"


text \<open>
  The end-to-end scenario: the default configuration without the max-bet limit (1
  percent initial bet, multiplier 2.5, minimum bet 1), a first balance of 1,000, three
  lost bets and a won one, and one more cycle. The balances read are the ones the game
  would show: 1,000, 990, 965, 903 and, after the win of 155, 1,058. The run is computed
  with \<open>exact_arith\<close>; the doubles give the same bets, since 1000 \<times> (1 / 100),
  10 \<times> 2.5, 25 \<times> 2.5 and 62 \<times> 2.5 come out as 10, 25, 62.5 and 155, and
  1058 \<times> (1 / 100) is within a rounding error of 10.58.
\<close>

definition scenario_config :: config where
  "scenario_config =
     default_config\<lparr>risk_management :=
       (risk_management default_config)\<lparr>enable_max_bet_limit := False\<rparr>\<rparr>"

definition cycle_with :: "string \<Rightarrow> string list \<Rightarrow> string \<Rightarrow> cycle_input" where
  "cycle_with g gs outcome =
     \<lparr> now = 0, timed_out = False, cash_response = Msgs [balance_message g gs],
       bet_client = outcome_client outcome \<rparr>"

definition scenario_inputs :: "cycle_input list" where
  "scenario_inputs =
     [cycle_with ''1'' [''000''] loss_message,
      cycle_with ''990'' [] loss_message,
      cycle_with ''965'' [] loss_message,
      cycle_with ''903'' [] ''The coin spins... and you won **310**!!'',
      cycle_with ''1'' [''058''] loss_message]"

definition scenario_run :: "nat \<Rightarrow> cycle list \<times> engine" where
  "scenario_run n =
     run_betting_strategy exact_arith scenario_config (Msgs [balance_message ''1'' [''000'']])
       (take n scenario_inputs) (init_engine 0)"

text \<open>The amounts of the bets placed in a run of the loop.\<close>

fun bet_amounts :: "cycle list \<Rightarrow> rat list" where
  "bet_amounts [] = []"
| "bet_amounts (Bet b r # cs) = b # bet_amounts cs"
| "bet_amounts (c # cs) = bet_amounts cs"

text \<open>
  The states of the scenario: a session that started at 1,000, with no risk flag set,
  given by its balance, its last bet, its loss streak and its three counters.
\<close>

definition session_state :: "rat \<Rightarrow> int \<Rightarrow> int \<Rightarrow> int \<Rightarrow> int \<Rightarrow> int \<Rightarrow> engine" where
  "session_state cash bet streak nb nw nl =
     \<lparr> current_cash = cash, starting_balance = 1000, current_bet = bet,
       consecutive_losses = streak, total_bets = nb, total_wins = nw, total_losses = nl,
       total_profit = cash - 1000, session_start_time = 0,
       stop_loss_triggered = False, profit_target_reached = False,
       max_losses_reached = False \<rparr>"

text \<open>The characters a token is made of: digits and the separating comma.\<close>

definition token_char :: "char \<Rightarrow> bool" where
  "token_char c = (is_digit c \<or> c = CHR '','')"

section \<open>Rounding\<close>

lemma round_py_of_int: "round_py (of_int n) = n"
  by (simp add: round_py_def)

lemma round_py_lower: "\<lfloor>x\<rfloor> \<le> round_py x"
  by (simp add: round_py_def Let_def)

lemma round_py_upper: "round_py x \<le> \<lfloor>x\<rfloor> + 1"
  by (simp add: round_py_def Let_def)

lemma round_py_mono: "x \<le> y \<Longrightarrow> round_py x \<le> round_py y"
proof -
  assume xy: "x \<le> y"
  have fm: "\<lfloor>x\<rfloor> \<le> \<lfloor>y\<rfloor>" using xy by (rule floor_mono)
  show ?thesis
  proof (cases "\<lfloor>x\<rfloor> = \<lfloor>y\<rfloor>")
    case True
    then show ?thesis using xy by (auto simp add: round_py_def Let_def)
  next
    case False
    then have "\<lfloor>x\<rfloor> + 1 \<le> \<lfloor>y\<rfloor>" using fm by simp
    then show ?thesis using round_py_lower [of y] round_py_upper [of x] by linarith
  qed
qed

lemma round_py_max: "round_py (max x y) = max (round_py x) (round_py y)"
  by (simp add: max_of_mono [of round_py] monoI round_py_mono)

lemma round_py_min: "round_py (min x y) = min (round_py x) (round_py y)"
  by (simp add: min_of_mono [of round_py] monoI round_py_mono)

lemma round_py_Ints: "x \<in> \<int> \<Longrightarrow> of_int (round_py x) = x"
  by (auto simp: Ints_def round_py_of_int)

section \<open>Bet sizing: the clamps and the rounding\<close>

text \<open>
  C1, as stated, fails: with the default configuration, a balance of 1005, a previous
  bet of 63 and three losses in a row, the base bet 157.5 is clamped to the cap 100.5
  and then rounded, so the code returns 100, while rounding first and clamping
  afterwards gives 100.5. (Both products, 63 \<times> 2.5 and 1005 \<times> (10 / 100), come out
  of the doubles as the exact values 157.5 and 100.5.)
\<close>

theorem calculate_bet_amount_not_rounded_then_clamped:
  "consecutive_losses losing_state > 0
   \<and> calculate_bet_amount exact_arith default_config losing_state = 100
   \<and> rounded_then_clamped exact_arith default_config losing_state = 201 / 2"
  by (simp add: calculate_bet_amount_def rounded_then_clamped_def losing_state_def
      default_config_def init_engine_def base_bet_def max_bet_def exact_arith_def Let_def) code_simp

text \<open>
  C1, amended: the clamps are applied before the rounding. After a loss the bet is
  \<open>round(min(max(previousBet \<times> lossMultiplier, minBet), cap))\<close>, at the start of a cycle
  the same with \<open>balance \<times> (initialBetPercentage / 100)\<close> in place of the product, the
  upper clamp only when the limit is enabled and with
  \<open>cap = balance \<times> (maxBetPercentage / 100)\<close>; and when the bounds in force are whole
  numbers this equals the rounded base bet clamped to the interval. Every product and
  quotient here is the one the float arithmetic returns, which need not be the exact
  one: the statement is proved for every multiplication and division \<open>ar\<close>.
\<close>

theorem calculate_bet_amount_clamps_then_rounds:
  "(consecutive_losses s \<noteq> 0 \<longrightarrow>
      calculate_bet_amount ar cfg s =
        round_py (let b = max (fmul ar (of_int (current_bet s)) (loss_multiplier (betting cfg)))
                              (min_bet_amount (betting cfg))
                  in if enable_max_bet_limit (risk_management cfg)
                     then min b (fmul ar (current_cash s)
                                    (fdiv ar (max_bet_percentage (risk_management cfg)) 100))
                     else b))
   \<and> (consecutive_losses s = 0 \<longrightarrow>
      calculate_bet_amount ar cfg s =
        round_py (let b = max (fmul ar (current_cash s) (fdiv ar (initial_bet_percentage (betting cfg)) 100))
                              (min_bet_amount (betting cfg))
                  in if enable_max_bet_limit (risk_management cfg)
                     then min b (fmul ar (current_cash s)
                                    (fdiv ar (max_bet_percentage (risk_management cfg)) 100))
                     else b))
   \<and> (min_bet_amount (betting cfg) \<in> \<int>
        \<and> (enable_max_bet_limit (risk_management cfg) \<longrightarrow> max_bet ar cfg s \<in> \<int>) \<longrightarrow>
      of_int (calculate_bet_amount ar cfg s) = rounded_then_clamped ar cfg s)"
proof (intro conjI impI)
  assume "consecutive_losses s \<noteq> 0"
  then show "calculate_bet_amount ar cfg s =
        round_py (let b = max (fmul ar (of_int (current_bet s)) (loss_multiplier (betting cfg)))
                              (min_bet_amount (betting cfg))
                  in if enable_max_bet_limit (risk_management cfg)
                     then min b (fmul ar (current_cash s)
                                    (fdiv ar (max_bet_percentage (risk_management cfg)) 100))
                     else b)"
    by (simp add: calculate_bet_amount_def base_bet_def max_bet_def exact_arith_def Let_def)
next
  assume "consecutive_losses s = 0"
  then show "calculate_bet_amount ar cfg s =
        round_py (let b = max (fmul ar (current_cash s) (fdiv ar (initial_bet_percentage (betting cfg)) 100))
                              (min_bet_amount (betting cfg))
                  in if enable_max_bet_limit (risk_management cfg)
                     then min b (fmul ar (current_cash s)
                                    (fdiv ar (max_bet_percentage (risk_management cfg)) 100))
                     else b)"
    by (simp add: calculate_bet_amount_def base_bet_def max_bet_def exact_arith_def Let_def)
next
  assume whole: "min_bet_amount (betting cfg) \<in> \<int>
        \<and> (enable_max_bet_limit (risk_management cfg) \<longrightarrow> max_bet ar cfg s \<in> \<int>)"
  then have lo: "of_int (round_py (min_bet_amount (betting cfg))) = min_bet_amount (betting cfg)"
    by (simp add: round_py_Ints)
  show "of_int (calculate_bet_amount ar cfg s) = rounded_then_clamped ar cfg s"
  proof (cases "enable_max_bet_limit (risk_management cfg)")
    case True
    with whole have hi: "of_int (round_py (max_bet ar cfg s)) = max_bet ar cfg s"
      by (simp add: round_py_Ints)
    show ?thesis using True lo hi
      by (simp add: calculate_bet_amount_def rounded_then_clamped_def Let_def
          round_py_min round_py_max)
  next
    case False
    then show ?thesis using lo
      by (simp add: calculate_bet_amount_def rounded_then_clamped_def Let_def round_py_max)
  qed
qed

theorem calculate_bet_amount_clamps_then_rounds_witness:
  "consecutive_losses recovery_state \<noteq> 0
   \<and> min_bet_amount (betting default_config) \<in> \<int>
   \<and> max_bet exact_arith default_config recovery_state \<in> \<int>
   \<and> calculate_bet_amount exact_arith default_config recovery_state = 62
   \<and> rounded_then_clamped exact_arith default_config recovery_state = 62
   \<and> consecutive_losses (init_engine 0\<lparr>current_cash := 1000\<rparr>) = 0
   \<and> calculate_bet_amount exact_arith default_config (init_engine 0\<lparr>current_cash := 1000\<rparr>) = 10"
proof -
  have a: "consecutive_losses recovery_state \<noteq> 0"
    by (simp add: recovery_state_def)
  have b: "min_bet_amount (betting default_config) \<in> \<int>"
    by (simp add: default_config_def)
  have "max_bet exact_arith default_config recovery_state = of_int 100"
    by (simp add: max_bet_def exact_arith_def default_config_def recovery_state_def init_engine_def)
  then have c: "max_bet exact_arith default_config recovery_state \<in> \<int>"
    by (simp only: Ints_of_int)
  have d: "consecutive_losses (init_engine 0\<lparr>current_cash := 1000\<rparr>) = 0"
    by (simp add: init_engine_def)
  have r1: "round_py (125 / 2) = 62" by code_simp
  have r2: "round_py 10 = 10" by code_simp
  note t = calculate_bet_amount_clamps_then_rounds [where s = recovery_state and ar = exact_arith
      and cfg = default_config]
  note u = calculate_bet_amount_clamps_then_rounds [where s = "init_engine 0\<lparr>current_cash := 1000\<rparr>"
      and ar = exact_arith and cfg = default_config]
  have e: "calculate_bet_amount exact_arith default_config recovery_state = 62"
    using t a r1 by (simp add: default_config_def recovery_state_def init_engine_def exact_arith_def)
  have f: "rounded_then_clamped exact_arith default_config recovery_state = 62"
    using t b c e by simp
  have g: "calculate_bet_amount exact_arith default_config (init_engine 0\<lparr>current_cash := 1000\<rparr>) = 10"
    using u d r2 by (simp add: default_config_def init_engine_def exact_arith_def)
  show ?thesis using a b c d e f g by simp
qed

section \<open>Bet sizing: the minimum bet\<close>

text \<open>
  C3, as stated, fails: with the default configuration (minimum bet 1, limit of 10
  percent enabled) and a balance of 5, the base bet 0.05 is raised to 1, then cut to
  the cap 0.5, which rounds to 0: the returned bet is below the minimum. (The doubles
  give the cap 5 \<times> (10 / 100) as exactly 0.5.)
\<close>

theorem calculate_bet_amount_below_minimum:
  "enable_max_bet_limit (risk_management default_config)
   \<and> min_bet_amount (betting default_config) = 1
   \<and> calculate_bet_amount exact_arith default_config poor_state = 0
   \<and> of_int (calculate_bet_amount exact_arith default_config poor_state) < min_bet_amount (betting default_config)"
  by (simp add: calculate_bet_amount_def poor_state_def
      default_config_def init_engine_def base_bet_def max_bet_def exact_arith_def Let_def) code_simp

text \<open>
  C3, amended: when the max-bet limit is disabled, or the cap
  \<open>balance \<times> maxBetPercentage / 100\<close> is at least the minimum bet, the returned bet is at
  least \<open>round(minBet)\<close>, hence at least the minimum bet when that is a whole number,
  and the orchestrator's cap at the balance keeps it so when the balance is at least the
  minimum bet. When the limit is enabled and the cap is below the minimum bet, the
  returned bet is \<open>round(cap)\<close>. The cap is the product the float arithmetic returns:
  the statement is proved for every multiplication and division \<open>ar\<close>.
\<close>

theorem calculate_bet_amount_at_least_minimum:
  "(\<not> enable_max_bet_limit (risk_management cfg) \<or> min_bet_amount (betting cfg) \<le> max_bet ar cfg s \<longrightarrow>
      round_py (min_bet_amount (betting cfg)) \<le> calculate_bet_amount ar cfg s)
   \<and> (min_bet_amount (betting cfg) \<in> \<int>
        \<and> (\<not> enable_max_bet_limit (risk_management cfg) \<or> min_bet_amount (betting cfg) \<le> max_bet ar cfg s) \<longrightarrow>
      min_bet_amount (betting cfg) \<le> of_int (calculate_bet_amount ar cfg s))
   \<and> (min_bet_amount (betting cfg) \<in> \<int>
        \<and> (\<not> enable_max_bet_limit (risk_management cfg) \<or> min_bet_amount (betting cfg) \<le> max_bet ar cfg s)
        \<and> min_bet_amount (betting cfg) \<le> cash \<longrightarrow>
      min_bet_amount (betting cfg) \<le> cap_to_balance (calculate_bet_amount ar cfg s) cash)
   \<and> (enable_max_bet_limit (risk_management cfg) \<and> max_bet ar cfg s < min_bet_amount (betting cfg) \<longrightarrow>
      calculate_bet_amount ar cfg s = round_py (max_bet ar cfg s))"
proof -
  let ?m = "min_bet_amount (betting cfg)"
  let ?ok = "\<not> enable_max_bet_limit (risk_management cfg) \<or> ?m \<le> max_bet ar cfg s"
  have ge: "round_py ?m \<le> calculate_bet_amount ar cfg s" if ?ok
  proof (cases "enable_max_bet_limit (risk_management cfg)")
    case True
    with that have "?m \<le> min (max (base_bet ar cfg s) ?m) (max_bet ar cfg s)" by simp
    then show ?thesis using True
      by (simp add: calculate_bet_amount_def Let_def round_py_mono)
  next
    case False
    have "?m \<le> max (base_bet ar cfg s) ?m" by simp
    then show ?thesis using False
      by (simp add: calculate_bet_amount_def Let_def round_py_mono)
  qed
  have whole: "?m \<le> of_int (calculate_bet_amount ar cfg s)" if "?m \<in> \<int>" ?ok
  proof -
    have "(of_int (round_py ?m) :: rat) \<le> of_int (calculate_bet_amount ar cfg s)"
      using ge [OF that(2)] by simp
    then show ?thesis using that(1) by (simp add: round_py_Ints)
  qed
  have capped: "?m \<le> cap_to_balance (calculate_bet_amount ar cfg s) cash"
    if "?m \<in> \<int>" ?ok "?m \<le> cash"
    using whole [OF that(1,2)] that(3) by (simp add: cap_to_balance_def)
  have below: "calculate_bet_amount ar cfg s = round_py (max_bet ar cfg s)"
    if "enable_max_bet_limit (risk_management cfg)" "max_bet ar cfg s < ?m"
  proof -
    have "min (max (base_bet ar cfg s) ?m) (max_bet ar cfg s) = max_bet ar cfg s"
      using that(2) by simp
    then show ?thesis using that(1) by (simp add: calculate_bet_amount_def Let_def)
  qed
  show ?thesis using ge whole capped below by blast
qed

theorem calculate_bet_amount_at_least_minimum_witness:
  "min_bet_amount (betting default_config) \<in> \<int>
   \<and> min_bet_amount (betting default_config) \<le> max_bet exact_arith default_config fresh_state
   \<and> min_bet_amount (betting default_config) \<le> 1000
   \<and> round_py (min_bet_amount (betting default_config)) \<le> calculate_bet_amount exact_arith default_config fresh_state
   \<and> min_bet_amount (betting default_config) \<le> of_int (calculate_bet_amount exact_arith default_config fresh_state)
   \<and> min_bet_amount (betting default_config)
        \<le> cap_to_balance (calculate_bet_amount exact_arith default_config fresh_state) 1000
   \<and> enable_max_bet_limit (risk_management default_config)
   \<and> max_bet exact_arith default_config poor_state < min_bet_amount (betting default_config)
   \<and> calculate_bet_amount exact_arith default_config poor_state = round_py (max_bet exact_arith default_config poor_state)"
proof -
  have a: "min_bet_amount (betting default_config) \<in> \<int>"
    by (simp add: default_config_def)
  have b: "min_bet_amount (betting default_config) \<le> max_bet exact_arith default_config fresh_state"
    by (simp add: max_bet_def exact_arith_def default_config_def fresh_state_def init_engine_def)
  have c: "min_bet_amount (betting default_config) \<le> 1000"
    by (simp add: default_config_def)
  have d: "enable_max_bet_limit (risk_management default_config)"
    by (simp add: default_config_def)
  have e: "max_bet exact_arith default_config poor_state < min_bet_amount (betting default_config)"
    by (simp add: max_bet_def exact_arith_def default_config_def poor_state_def init_engine_def)
  note t = calculate_bet_amount_at_least_minimum [where ar = exact_arith and cfg = default_config
      and s = fresh_state and cash = 1000]
  note u = calculate_bet_amount_at_least_minimum [where ar = exact_arith and cfg = default_config
      and s = poor_state and cash = 0]
  show ?thesis using a b c d e t u by blast
qed

section \<open>Stop conditions\<close>

text \<open>
  C4: \<open>should_stop_betting\<close> answers with the first reason that applies, in the order
  stop-loss flag, profit-target flag, max-losses flag, non-positive balance, session
  time limit (only if enabled), and with \<open>False\<close> and the empty reason when none
  applies. In particular a balance \<open>\<le> 0\<close> with no flag set gives
  \<open>(True, "Insufficient funds")\<close>.
\<close>

theorem should_stop_betting_priority:
  "(stop_loss_triggered s \<longrightarrow>
      should_stop_betting cfg t s = (True, ''Stop loss triggered''))
   \<and> (\<not> stop_loss_triggered s \<and> profit_target_reached s \<longrightarrow>
      should_stop_betting cfg t s = (True, ''Profit target reached''))
   \<and> (\<not> stop_loss_triggered s \<and> \<not> profit_target_reached s \<and> max_losses_reached s \<longrightarrow>
      should_stop_betting cfg t s = (True, ''Maximum consecutive losses reached''))
   \<and> (\<not> stop_loss_triggered s \<and> \<not> profit_target_reached s \<and> \<not> max_losses_reached s
        \<and> current_cash s \<le> 0 \<longrightarrow>
      should_stop_betting cfg t s = (True, ''Insufficient funds''))
   \<and> (\<not> stop_loss_triggered s \<and> \<not> profit_target_reached s \<and> \<not> max_losses_reached s
        \<and> 0 < current_cash s \<and> enable_session_time_limit (risk_management cfg)
        \<and> session_time_limit_hours (risk_management cfg) \<le> (t - session_start_time s) / 3600 \<longrightarrow>
      should_stop_betting cfg t s = (True, ''Session time limit reached''))
   \<and> (\<not> stop_loss_triggered s \<and> \<not> profit_target_reached s \<and> \<not> max_losses_reached s
        \<and> 0 < current_cash s
        \<and> \<not> (enable_session_time_limit (risk_management cfg)
              \<and> session_time_limit_hours (risk_management cfg) \<le> (t - session_start_time s) / 3600) \<longrightarrow>
      should_stop_betting cfg t s = (False, []))"
  by (simp add: should_stop_betting_def)

theorem should_stop_betting_priority_witness:
  "should_stop_betting default_config 0 all_flags_state = (True, ''Stop loss triggered'')
   \<and> should_stop_betting default_config 0 (all_flags_state\<lparr>stop_loss_triggered := False\<rparr>)
       = (True, ''Profit target reached'')
   \<and> should_stop_betting default_config 0
        (all_flags_state\<lparr>stop_loss_triggered := False, profit_target_reached := False\<rparr>)
       = (True, ''Maximum consecutive losses reached'')
   \<and> should_stop_betting timed_config 90000 (init_engine 0) = (True, ''Insufficient funds'')
   \<and> should_stop_betting timed_config 90000 fresh_state = (True, ''Session time limit reached'')
   \<and> should_stop_betting timed_config 3600 fresh_state = (False, [])"
proof -
  have a: "stop_loss_triggered all_flags_state"
    by (simp add: all_flags_state_def)
  have b: "\<not> stop_loss_triggered (all_flags_state\<lparr>stop_loss_triggered := False\<rparr>)
           \<and> profit_target_reached (all_flags_state\<lparr>stop_loss_triggered := False\<rparr>)"
    by (simp add: all_flags_state_def)
  have c: "\<not> stop_loss_triggered (all_flags_state\<lparr>stop_loss_triggered := False, profit_target_reached := False\<rparr>)
           \<and> \<not> profit_target_reached (all_flags_state\<lparr>stop_loss_triggered := False, profit_target_reached := False\<rparr>)
           \<and> max_losses_reached (all_flags_state\<lparr>stop_loss_triggered := False, profit_target_reached := False\<rparr>)"
    by (simp add: all_flags_state_def)
  have d: "\<not> stop_loss_triggered (init_engine 0) \<and> \<not> profit_target_reached (init_engine 0)
           \<and> \<not> max_losses_reached (init_engine 0) \<and> current_cash (init_engine 0) \<le> 0"
    by (simp add: init_engine_def)
  have e: "\<not> stop_loss_triggered fresh_state \<and> \<not> profit_target_reached fresh_state
           \<and> \<not> max_losses_reached fresh_state \<and> 0 < current_cash fresh_state"
    by (simp add: fresh_state_def init_engine_def)
  have f: "enable_session_time_limit (risk_management timed_config)"
    by (simp add: timed_config_def default_config_def)
  have g: "session_time_limit_hours (risk_management timed_config) \<le> (90000 - session_start_time fresh_state) / 3600"
    by (simp add: timed_config_def default_config_def fresh_state_def init_engine_def)
  have h: "\<not> (enable_session_time_limit (risk_management timed_config)
              \<and> session_time_limit_hours (risk_management timed_config) \<le> (3600 - session_start_time fresh_state) / 3600)"
    by (simp add: timed_config_def default_config_def fresh_state_def init_engine_def)
  note t1 = should_stop_betting_priority [of all_flags_state default_config 0]
  note t2 = should_stop_betting_priority [of "all_flags_state\<lparr>stop_loss_triggered := False\<rparr>" default_config 0]
  note t3 = should_stop_betting_priority [of "all_flags_state\<lparr>stop_loss_triggered := False, profit_target_reached := False\<rparr>" default_config 0]
  note t4 = should_stop_betting_priority [of "init_engine 0" timed_config 90000]
  note t5 = should_stop_betting_priority [of fresh_state timed_config 90000]
  note t6 = should_stop_betting_priority [of fresh_state timed_config 3600]
  have w1: "should_stop_betting default_config 0 all_flags_state = (True, ''Stop loss triggered'')"
    using t1 a by (rule conjunct1 [THEN mp])
  have w2: "should_stop_betting default_config 0 (all_flags_state\<lparr>stop_loss_triggered := False\<rparr>)
       = (True, ''Profit target reached'')"
    using t2 [THEN conjunct2, THEN conjunct1] b by (rule mp)
  have w3: "should_stop_betting default_config 0
        (all_flags_state\<lparr>stop_loss_triggered := False, profit_target_reached := False\<rparr>)
       = (True, ''Maximum consecutive losses reached'')"
    using t3 [THEN conjunct2, THEN conjunct2, THEN conjunct1] c by (rule mp)
  have w4: "should_stop_betting timed_config 90000 (init_engine 0) = (True, ''Insufficient funds'')"
    using t4 [THEN conjunct2, THEN conjunct2, THEN conjunct2, THEN conjunct1] d by (rule mp)
  have w5: "should_stop_betting timed_config 90000 fresh_state = (True, ''Session time limit reached'')"
    using t5 [THEN conjunct2, THEN conjunct2, THEN conjunct2, THEN conjunct2, THEN conjunct1]
      conjI [OF conjunct1 [OF e] conjI [OF conjunct1 [OF conjunct2 [OF e]]
        conjI [OF conjunct1 [OF conjunct2 [OF conjunct2 [OF e]]]
          conjI [OF conjunct2 [OF conjunct2 [OF conjunct2 [OF e]]] conjI [OF f g]]]]]
    by (rule mp)
  have w6: "should_stop_betting timed_config 3600 fresh_state = (False, [])"
    using t6 [THEN conjunct2, THEN conjunct2, THEN conjunct2, THEN conjunct2, THEN conjunct2]
      conjI [OF conjunct1 [OF e] conjI [OF conjunct1 [OF conjunct2 [OF e]]
        conjI [OF conjunct1 [OF conjunct2 [OF conjunct2 [OF e]]]
          conjI [OF conjunct2 [OF conjunct2 [OF conjunct2 [OF e]]] h]]]]
    by (rule mp)
  from w1 w2 w3 w4 w5 w6 show ?thesis by (intro conjI)
qed

section \<open>What each call changes\<close>

lemma check_risk_conditions_frame:
  "current_cash (check_risk_conditions cfg s) = current_cash s"
  "starting_balance (check_risk_conditions cfg s) = starting_balance s"
  "current_bet (check_risk_conditions cfg s) = current_bet s"
  "consecutive_losses (check_risk_conditions cfg s) = consecutive_losses s"
  "total_bets (check_risk_conditions cfg s) = total_bets s"
  "total_wins (check_risk_conditions cfg s) = total_wins s"
  "total_losses (check_risk_conditions cfg s) = total_losses s"
  "total_profit (check_risk_conditions cfg s) = total_profit s"
  "session_start_time (check_risk_conditions cfg s) = session_start_time s"
  by (simp_all add: check_risk_conditions_def check_max_losses_def check_profit_target_def
      check_stop_loss_def Let_def)

lemma check_risk_conditions_flags:
  "stop_loss_triggered s \<Longrightarrow> stop_loss_triggered (check_risk_conditions cfg s)"
  "profit_target_reached s \<Longrightarrow> profit_target_reached (check_risk_conditions cfg s)"
  "max_losses_reached s \<Longrightarrow> max_losses_reached (check_risk_conditions cfg s)"
  by (simp_all add: check_risk_conditions_def check_max_losses_def check_profit_target_def
      check_stop_loss_def Let_def)

lemma record_cash_flags:
  "stop_loss_triggered s \<Longrightarrow> stop_loss_triggered (snd (record_cash cfg g s))"
  "profit_target_reached s \<Longrightarrow> profit_target_reached (snd (record_cash cfg g s))"
  "max_losses_reached s \<Longrightarrow> max_losses_reached (snd (record_cash cfg g s))"
  by (simp_all add: record_cash_def Let_def check_risk_conditions_flags)

lemma record_cash_counters:
  "total_bets (snd (record_cash cfg g s)) = total_bets s"
  "total_wins (snd (record_cash cfg g s)) = total_wins s"
  "total_losses (snd (record_cash cfg g s)) = total_losses s"
  "consecutive_losses (snd (record_cash cfg g s)) = consecutive_losses s"
  "current_bet (snd (record_cash cfg g s)) = current_bet s"
  by (simp_all add: record_cash_def Let_def check_risk_conditions_frame)

lemma scan_cash_cases:
  "scan_cash cfg ms s = (0, s) \<or> (\<exists>g. scan_cash cfg ms s = record_cash cfg g s)"
  by (induction ms) (auto split: option.splits)

lemma check_cash_cases:
  "check_cash cfg resp s = (0, s) \<or> (\<exists>g. check_cash cfg resp s = record_cash cfg g s)"
  using scan_cash_cases [of cfg _ s] by (cases resp) (simp_all add: check_cash_def)

lemma check_cash_flags:
  "stop_loss_triggered s \<Longrightarrow> stop_loss_triggered (snd (check_cash cfg resp s))"
  "profit_target_reached s \<Longrightarrow> profit_target_reached (snd (check_cash cfg resp s))"
  "max_losses_reached s \<Longrightarrow> max_losses_reached (snd (check_cash cfg resp s))"
  using check_cash_cases [of cfg resp s] by (auto simp: record_cash_flags)

lemma check_cash_counters:
  "total_bets (snd (check_cash cfg resp s)) = total_bets s"
  "total_wins (snd (check_cash cfg resp s)) = total_wins s"
  "total_losses (snd (check_cash cfg resp s)) = total_losses s"
  "consecutive_losses (snd (check_cash cfg resp s)) = consecutive_losses s"
  using check_cash_cases [of cfg resp s] by (auto simp: record_cash_counters)

lemma place_coinflip_bet_cases:
  "place_coinflip_bet cl amount s = (None, None, placed amount s)
   \<or> (\<exists>h. place_coinflip_bet cl amount s = settle h (placed amount s))"
  by (auto simp add: place_coinflip_bet_def placed_def Let_def
      split: response.splits scan.splits prod.splits option.splits)

lemma settle_flags:
  "stop_loss_triggered (snd (snd (settle h s))) = stop_loss_triggered s"
  "profit_target_reached (snd (snd (settle h s))) = profit_target_reached s"
  "max_losses_reached (snd (snd (settle h s))) = max_losses_reached s"
  by (cases h; simp add: Let_def)+

lemma place_coinflip_bet_flags:
  "stop_loss_triggered (snd (snd (place_coinflip_bet cl amount s))) = stop_loss_triggered s"
  "profit_target_reached (snd (snd (place_coinflip_bet cl amount s))) = profit_target_reached s"
  "max_losses_reached (snd (snd (place_coinflip_bet cl amount s))) = max_losses_reached s"
  using place_coinflip_bet_cases [of cl amount s]
  by (auto simp: settle_flags placed_def)

lemma step_flags:
  "stop_loss_triggered s \<Longrightarrow> stop_loss_triggered (step cfg x s)"
  "profit_target_reached s \<Longrightarrow> profit_target_reached (step cfg x s)"
  "max_losses_reached s \<Longrightarrow> max_losses_reached (step cfg x s)"
  by (cases x; simp add: check_cash_flags place_coinflip_bet_flags check_risk_conditions_flags)+

section \<open>Risk flags\<close>

text \<open>
  C5: each risk flag is one-way. From any state of a session in which a flag is set,
  every further sequence of balance reads, bets and risk checks, whatever the client
  answers, ends in a state in which the flag is still set.
\<close>

theorem risk_flags_sticky:
  "(stop_loss_triggered s \<longrightarrow> stop_loss_triggered (run cfg ops s))
   \<and> (profit_target_reached s \<longrightarrow> profit_target_reached (run cfg ops s))
   \<and> (max_losses_reached s \<longrightarrow> max_losses_reached (run cfg ops s))"
proof (induction ops arbitrary: s)
  case Nil
  show ?case by simp
next
  case (Cons x xs)
  show ?case using Cons.IH [of "step cfg x s"] step_flags [of s cfg x] by simp
qed

section \<open>Reading a balance from chat text\<close>

lemma contains_here: "starts_with p s \<Longrightarrow> contains p s"
  by (cases s) (simp_all add: starts_with_def)

lemma contains_append: "contains p (a @ p @ b)"
proof (induction a)
  case Nil
  show ?case by (simp add: contains_here starts_with_def)
next
  case (Cons c a)
  then show ?case by simp
qed

lemma space_not_digit: "is_space c \<Longrightarrow> \<not> is_digit c \<and> c \<noteq> CHR '',''"
  by (auto simp: is_space_def is_digit_def)

lemma plain_chars:
  "list_all (\<lambda>c. lower_char c \<noteq> CHR ''c'')
     (''0123456789,'' @ [CHR 0x09, CHR 0x0A, CHR 0x0B, CHR 0x0C, CHR 0x0D,
               CHR 0x1C, CHR 0x1D, CHR 0x1E, CHR 0x1F, CHR 0x20])"
  by code_simp

lemma lower_c_plain:
  assumes "lower_char c = CHR ''c''"
  shows "\<not> is_digit c \<and> c \<noteq> CHR '','' \<and> \<not> is_space c"
proof -
  have "c \<notin> set (''0123456789,'' @ [CHR 0x09, CHR 0x0A, CHR 0x0B, CHR 0x0C, CHR 0x0D,
               CHR 0x1C, CHR 0x1D, CHR 0x1E, CHR 0x1F, CHR 0x20])"
    using plain_chars assms unfolding list_all_iff by blast
  then show ?thesis by (simp add: is_digit_def is_space_def)
qed

lemma takeWhile_digits:
  assumes "list_all is_digit g" and "x = [] \<or> \<not> is_digit (hd x)"
  shows "takeWhile is_digit (g @ x) = g" and "dropWhile is_digit (g @ x) = x"
proof -
  have all: "\<And>c. c \<in> set g \<Longrightarrow> is_digit c"
    using assms(1) by (simp add: list_all_iff)
  have stop: "takeWhile is_digit x = [] \<and> dropWhile is_digit x = x"
    using assms(2) by (cases x) auto
  show "takeWhile is_digit (g @ x) = g"
    using all stop by (simp add: takeWhile_append2)
  show "dropWhile is_digit (g @ x) = x"
    using all stop by (simp add: dropWhile_append2)
qed

lemma number_tail_groups:
  assumes "list_all digit_group gs"
    and "r = [] \<or> (\<not> is_digit (hd r) \<and> hd r \<noteq> CHR '','')"
  shows "number_tail (comma_groups gs @ r) = (comma_groups gs, r)"
  using assms(1)
proof (induction gs)
  case Nil
  show ?case using assms(2) by (cases r) (simp_all add: comma_groups_def)
next
  case (Cons h hs)
  let ?x = "comma_groups hs @ r"
  have h: "h \<noteq> []" "list_all is_digit h"
    using Cons.prems by (simp_all add: digit_group_def)
  have stop: "?x = [] \<or> \<not> is_digit (hd ?x)"
  proof (cases hs)
    case Nil
    then show ?thesis using assms(2) by (auto simp: comma_groups_def)
  next
    case (Cons k ks)
    then show ?thesis by (simp add: comma_groups_def is_digit_def)
  qed
  have tw: "takeWhile is_digit (h @ ?x) = h" and dw: "dropWhile is_digit (h @ ?x) = ?x"
    using takeWhile_digits [OF h(2) stop] by simp_all
  have ih: "number_tail ?x = (comma_groups hs, r)"
    using Cons.IH Cons.prems by simp
  have "comma_groups (h # hs) @ r = CHR '','' # (h @ ?x)"
    by (simp add: comma_groups_def)
  then show ?case using tw dw ih h(1) by (simp add: comma_groups_def)
qed

lemma match_number_token:
  assumes "digit_group g" and "list_all digit_group gs"
    and "r = [] \<or> (\<not> is_digit (hd r) \<and> hd r \<noteq> CHR '','')"
  shows "match_number (join_groups g gs @ r) = Some (join_groups g gs, r)"
proof -
  let ?x = "comma_groups gs @ r"
  have g: "g \<noteq> []" "list_all is_digit g"
    using assms(1) by (simp_all add: digit_group_def)
  have stop: "?x = [] \<or> \<not> is_digit (hd ?x)"
  proof (cases gs)
    case Nil
    then show ?thesis using assms(3) by (auto simp: comma_groups_def)
  next
    case (Cons k ks)
    then show ?thesis by (simp add: comma_groups_def is_digit_def)
  qed
  have tw: "takeWhile is_digit (g @ ?x) = g" and dw: "dropWhile is_digit (g @ ?x) = ?x"
    using takeWhile_digits [OF g(2) stop] by simp_all
  show ?thesis
    using tw dw g(1) number_tail_groups [OF assms(2,3)]
    by (simp add: match_number_def join_groups_def)
qed

lemma keyword_head:
  assumes "lower kw = ''cowoncy''"
  shows "kw \<noteq> [] \<and> \<not> is_digit (hd kw) \<and> hd kw \<noteq> CHR '','' \<and> \<not> is_space (hd kw)"
proof (cases kw)
  case Nil
  then show ?thesis using assms by (simp add: lower_def)
next
  case (Cons c cs)
  then have "lower_char c = CHR ''c''" using assms by (simp add: lower_def)
  then show ?thesis using Cons lower_c_plain by simp
qed

lemma match_cash_token:
  assumes "digit_group g" and "list_all digit_group gs"
    and "list_all is_space ws" and "lower kw = ''cowoncy''"
  shows "match_cash (join_groups g gs @ ws @ kw @ b) = Some (join_groups g gs)"
proof -
  note k = keyword_head [OF assms(4)]
  let ?r = "ws @ kw @ b"
  have r: "?r = [] \<or> (\<not> is_digit (hd ?r) \<and> hd ?r \<noteq> CHR '','')"
  proof (cases ws)
    case Nil
    then show ?thesis using k by (cases kw) simp_all
  next
    case (Cons c cs)
    then have "is_space c" using assms(3) by simp
    then show ?thesis using Cons space_not_digit by simp
  qed
  have sp: "\<And>c. c \<in> set ws \<Longrightarrow> is_space c"
    using assms(3) by (simp add: list_all_iff)
  have "dropWhile is_space (kw @ b) = kw @ b"
    using k by (cases kw) simp_all
  then have dw: "dropWhile is_space ?r = kw @ b"
    using sp by (simp add: dropWhile_append2)
  have "lower (kw @ b) = ''cowoncy'' @ lower b"
    using assms(4) by (simp add: lower_def)
  then have sw: "starts_with ''cowoncy'' (lower (kw @ b))"
    by (simp add: starts_with_def)
  show ?thesis
    using match_number_token [OF assms(1,2) r] dw sw by (simp add: match_cash_def)
qed

lemma re_search_skip:
  "list_all (\<lambda>c. \<not> is_digit c) a \<Longrightarrow> re_search match_cash (a @ x) = re_search match_cash x"
  by (induction a) (simp_all add: match_cash_def match_number_def)

lemma re_search_here: "m x = Some g \<Longrightarrow> re_search m x = Some g"
  by (cases x) simp_all

lemma re_search_token:
  assumes "list_all (\<lambda>c. \<not> is_digit c) a" and "digit_group g" and "list_all digit_group gs"
    and "list_all is_space ws" and "lower kw = ''cowoncy''"
  shows "re_search match_cash (a @ join_groups g gs @ ws @ kw @ b) = Some (join_groups g gs)"
proof -
  let ?x = "join_groups g gs @ ws @ kw @ b"
  have "re_search match_cash ?x = Some (join_groups g gs)"
    using match_cash_token [OF assms(2-5)] by (rule re_search_here)
  then show ?thesis using re_search_skip [OF assms(1), of ?x] by simp
qed

lemma contains_keyword:
  assumes "lower kw = ''cowoncy''"
  shows "contains ''cowoncy'' (lower (a @ t @ ws @ kw @ b))"
proof -
  have "lower (a @ t @ ws @ kw @ b) = (lower a @ lower t @ lower ws) @ ''cowoncy'' @ lower b"
    using assms by (simp add: lower_def)
  then show ?thesis using contains_append [of "''cowoncy''" "lower a @ lower t @ lower ws" "lower b"]
    by simp
qed

lemma strip_commas_groups:
  "list_all digit_group gs \<Longrightarrow> strip_commas (comma_groups gs) = concat gs"
proof (induction gs)
  case Nil
  show ?case by (simp add: strip_commas_def comma_groups_def)
next
  case (Cons h hs)
  have nd: "\<not> is_digit (CHR '','')"
    by (simp add: is_digit_def)
  have "\<And>c. c \<in> set h \<Longrightarrow> is_digit c"
    using Cons.prems by (simp add: digit_group_def list_all_iff)
  then have "\<And>c. c \<in> set h \<Longrightarrow> c \<noteq> CHR '',''"
    using nd by blast
  then have "filter (\<lambda>c. c \<noteq> CHR '','') h = h"
    by (simp add: filter_id_conv)
  then show ?case using Cons by (simp add: strip_commas_def comma_groups_def)
qed

lemma strip_commas_token:
  assumes "digit_group g" and "list_all digit_group gs"
  shows "strip_commas (join_groups g gs) = concat (g # gs)"
proof -
  have "strip_commas (join_groups g gs) = strip_commas (comma_groups (g # gs))"
    by (simp add: strip_commas_def join_groups_def comma_groups_def)
  then show ?thesis using strip_commas_groups [of "g # gs"] assms by simp
qed

lemma record_cash_value: "fst (record_cash cfg g s) = float_of_digits (strip_commas g)"
  by (simp add: record_cash_def Let_def check_risk_conditions_frame)

lemma scan_cash_no_keyword:
  "list_all (\<lambda>m. \<not> contains ''cowoncy'' (lower m)) ms \<Longrightarrow> scan_cash cfg ms s = (0, s)"
  by (induction ms) simp_all

lemma scan_cash_skip:
  "list_all (\<lambda>m. \<not> contains ''cowoncy'' (lower m)) pre \<Longrightarrow>
   scan_cash cfg (pre @ ms) s = scan_cash cfg ms s"
  by (induction pre) simp_all

lemma scan_cash_token:
  assumes "list_all (\<lambda>m. \<not> contains ''cowoncy'' (lower m)) pre"
    and "list_all (\<lambda>c. \<not> is_digit c) a" and "digit_group g" and "list_all digit_group gs"
    and "list_all is_space ws" and "lower kw = ''cowoncy''"
  shows "scan_cash cfg (pre @ (a @ join_groups g gs @ ws @ kw @ b) # post) s
         = record_cash cfg (join_groups g gs) s"
  using scan_cash_skip [OF assms(1)] re_search_token [OF assms(2-6)] contains_keyword [OF assms(6)]
  by simp

lemma check_cash_balance_message:
  assumes "digit_group g" and "list_all digit_group gs"
  shows "check_cash cfg (Msgs (balance_message g gs # post)) s = record_cash cfg (join_groups g gs) s"
proof -
  have a: "list_all (\<lambda>c. \<not> is_digit c) ''You have ''"
    by (simp add: is_digit_def)
  have w: "list_all is_space '' ''"
    by (simp add: is_space_def)
  have k: "lower ''cowoncy'' = ''cowoncy''"
    by code_simp
  have p: "list_all (\<lambda>m. \<not> contains ''cowoncy'' (lower m)) []"
    by simp
  have "scan_cash cfg ([] @ (''You have '' @ join_groups g gs @ '' '' @ ''cowoncy'' @ []) # post) s
        = record_cash cfg (join_groups g gs) s"
    using p a assms w k by (rule scan_cash_token)
  then show ?thesis by (simp add: check_cash_def balance_message_def)
qed

lemma digit_groups_examples:
  "digit_group ''1''" "digit_group ''0''" "digit_group ''400''" "digit_group ''500''" "digit_group ''42''"
  "list_all digit_group [''000'']" "list_all digit_group [''234'', ''567'']" "list_all digit_group []"
  by (simp_all add: digit_group_def is_digit_def)

lemma float_of_digits_examples:
  "float_of_digits (strip_commas (join_groups ''1'' [''000''])) = 1000"
  "float_of_digits (strip_commas (join_groups ''400'' [])) = 400"
  "float_of_digits (strip_commas (join_groups ''0'' [])) = 0"
  "float_of_digits (strip_commas (join_groups ''500'' [])) = 500"
  "float_of_digits (concat [''1'', ''234'', ''567'']) = 1234567"
  "float_of_digits (concat [''42'']) = 42"
  "float_of_digits (strip_commas (join_groups ''1'' [''234'', ''567''])) = 1234567"
  by code_simp+

lemma record_cash_starting_balance:
  "starting_balance (snd (record_cash cfg g s))
   = (if starting_balance s = 0 then float_of_digits (strip_commas g) else starting_balance s)"
  by (simp add: record_cash_def Let_def check_risk_conditions_frame)

lemma record_cash_current_cash:
  "current_cash (snd (record_cash cfg g s)) = float_of_digits (strip_commas g)"
  by (simp add: record_cash_def Let_def check_risk_conditions_frame)

lemma record_cash_stop_loss:
  "stop_loss_triggered (snd (record_cash cfg g s))
   = (stop_loss_triggered s
      \<or> (let c = float_of_digits (strip_commas g);
              b = (if starting_balance s = 0 then c else starting_balance s)
          in enable_stop_loss (risk_management cfg) \<and> 0 < b
             \<and> stop_loss_percentage (risk_management cfg) \<le> (b - c) / b * 100))"
  by (simp add: record_cash_def Let_def check_risk_conditions_def check_max_losses_def
      check_profit_target_def check_stop_loss_def)

subsection \<open>Text before the token\<close>

lemma number_tail_split:
  "number_tail s = (t, r) \<Longrightarrow> s = t @ r \<and> list_all token_char t"
proof (induction s arbitrary: t r rule: number_tail.induct)
  case 1
  then show ?case by simp
next
  case (2 c cs)
  show ?case
  proof (cases "c = CHR '','' \<and> takeWhile is_digit cs \<noteq> []")
    case True
    obtain t' r' where n: "number_tail (dropWhile is_digit cs) = (t', r')"
      by (cases "number_tail (dropWhile is_digit cs)")
    have ih: "dropWhile is_digit cs = t' @ r' \<and> list_all token_char t'"
      using "2.IH" [OF True n] .
    have tr: "t = c # takeWhile is_digit cs @ t'" "r = r'"
      using "2.prems" True n by simp_all
    have "takeWhile is_digit cs @ dropWhile is_digit cs = cs"
      by simp
    then have a: "c # cs = t @ r"
      using ih tr by simp
    have "list_all token_char (takeWhile is_digit cs)"
      by (auto simp: list_all_iff token_char_def dest: set_takeWhileD)
    then have b: "list_all token_char t"
      using ih tr True by (simp add: token_char_def)
    show ?thesis using a b by simp
  next
    case False
    then show ?thesis using "2.prems" by auto
  qed
qed

lemma match_number_split:
  assumes "match_number s = Some (tok, r)"
  shows "s = tok @ r \<and> list_all token_char tok"
proof -
  obtain t' r' where n: "number_tail (dropWhile is_digit s) = (t', r')"
    by (cases "number_tail (dropWhile is_digit s)")
  have tr: "tok = takeWhile is_digit s @ t'" "r = r'"
    using assms n by (simp_all add: match_number_def split: if_splits)
  have sp: "dropWhile is_digit s = t' @ r' \<and> list_all token_char t'"
    using number_tail_split [OF n] .
  have "takeWhile is_digit s @ dropWhile is_digit s = s"
    by simp
  then have a: "s = tok @ r"
    using sp tr by simp
  have "list_all token_char (takeWhile is_digit s)"
    by (auto simp: list_all_iff token_char_def dest: set_takeWhileD)
  then have "list_all token_char (takeWhile is_digit s @ t')"
    using sp by simp
  then have c: "list_all token_char tok"
    unfolding tr(1) .
  from a c show ?thesis by (rule conjI)
qed

lemma match_number_inside:
  assumes "match_number (x @ t) = Some (tok, r)" and "x \<noteq> []" and "\<not> token_char (last x)"
  shows "\<exists>y. y \<noteq> [] \<and> x = tok @ y \<and> r = y @ t"
proof -
  have sp: "x @ t = tok @ r" and tc: "list_all token_char tok"
    using match_number_split [OF assms(1)] by simp_all
  have out: "last x \<notin> set tok"
    using tc assms(3) by (auto simp: list_all_iff)
  from sp obtain us where "x = tok @ us \<and> us @ t = r \<or> x @ us = tok \<and> t = us @ r"
    unfolding append_eq_append_conv2 by blast
  then show ?thesis
  proof
    assume h: "x = tok @ us \<and> us @ t = r"
    have "us \<noteq> []"
    proof
      assume "us = []"
      then have "last x \<in> set tok" using h assms(2) by simp
      then show False using out by simp
    qed
    then show ?thesis using h by blast
  next
    assume h: "x @ us = tok \<and> t = us @ r"
    then have "last x \<in> set tok" using assms(2) by auto
    then show ?thesis using out by simp
  qed
qed

lemma contains_suffix: "contains p v \<Longrightarrow> contains p (u @ v)"
  by (induction u) simp_all

lemma digits_not_in_keyword:
  "list_all (\<lambda>c. lower_char c \<notin> set ''cowoncy'' \<and> \<not> is_space c) ''0123456789''"
  by code_simp

lemma digit_not_in_keyword:
  assumes "is_digit d"
  shows "lower_char d \<notin> set ''cowoncy''" and "\<not> is_space d"
  using digits_not_in_keyword assms unfolding list_all_iff is_digit_def by blast+

lemma keyword_not_across:
  assumes "\<not> contains ''cowoncy'' (lower z)" and "is_digit d"
  shows "\<not> starts_with ''cowoncy'' (lower (z @ d # t'))"
proof
  let ?n = "length ''cowoncy''"
  assume s: "starts_with ''cowoncy'' (lower (z @ d # t'))"
  have lw: "lower (z @ d # t') = lower z @ lower_char d # lower t'"
    by (simp add: lower_def)
  have tk: "take ?n (lower z @ lower_char d # lower t') = ''cowoncy''"
    using s unfolding starts_with_def lw .
  show False
  proof (cases "?n \<le> length (lower z)")
    case True
    then have "take ?n (lower z @ lower_char d # lower t') = take ?n (lower z)"
      by (simp only: take_append diff_is_0_eq' take_0 append_Nil2)
    then have "starts_with ''cowoncy'' (lower z)"
      using tk unfolding starts_with_def by simp
    then show False using assms(1) contains_here by blast
  next
    case False
    then have lt: "length (lower z) < ?n"
      by simp
    have "length (lower z) < length (lower z @ lower_char d # lower t')"
      by simp
    then have "(take ?n (lower z @ lower_char d # lower t')) ! length (lower z)
               = (lower z @ lower_char d # lower t') ! length (lower z)"
      using lt by (intro nth_take)
    also have "\<dots> = lower_char d"
      by (simp only: nth_append_length)
    finally have "lower_char d = ''cowoncy'' ! length (lower z)"
      using tk by simp
    moreover have "''cowoncy'' ! length (lower z) \<in> set ''cowoncy''"
      using lt by (intro nth_mem)
    ultimately show False using digit_not_in_keyword(1) [OF assms(2)] by simp
  qed
qed

lemma match_cash_inside:
  assumes "x \<noteq> []" and "\<not> token_char (last x)"
    and "\<not> contains ''cowoncy'' (lower x)" and "is_digit d"
  shows "match_cash (x @ d # t') = None"
proof (cases "match_number (x @ d # t')")
  case None
  then show ?thesis by (simp add: match_cash_def)
next
  case (Some p)
  obtain tok r where p: "p = (tok, r)" by (cases p)
  obtain y where y: "y \<noteq> []" "x = tok @ y" "r = y @ d # t'"
    using match_number_inside [of x "d # t'" tok r] Some p assms(1,2) by blast
  let ?z = "dropWhile is_space y"
  have dw: "dropWhile is_space r = ?z @ d # t'"
    using y(3) digit_not_in_keyword(2) [OF assms(4)] by (simp add: dropWhile_append3)
  have "x = (tok @ takeWhile is_space y) @ ?z"
    using y(2) by simp
  then have "lower x = lower (tok @ takeWhile is_space y) @ lower ?z"
    by (metis lower_def map_append)
  then have "\<not> contains ''cowoncy'' (lower ?z)"
    using assms(3) contains_suffix by metis
  then have "\<not> starts_with ''cowoncy'' (lower (?z @ d # t'))"
    using assms(4) by (rule keyword_not_across)
  then show ?thesis using Some p dw by (simp add: match_cash_def)
qed

lemma re_search_before_token:
  assumes "\<not> contains ''cowoncy'' (lower a)" and "a = [] \<or> \<not> token_char (last a)"
    and "is_digit d"
  shows "re_search match_cash (a @ d # t') = re_search match_cash (d # t')"
  using assms(1,2)
proof (induction a)
  case Nil
  show ?case by simp
next
  case (Cons c a)
  have k: "\<not> contains ''cowoncy'' (lower (c # a))" and l: "\<not> token_char (last (c # a))"
    using Cons.prems by simp_all
  have none: "match_cash ((c # a) @ d # t') = None"
    using match_cash_inside [OF _ l k assms(3)] by simp
  have k': "\<not> contains ''cowoncy'' (lower a)"
    using k by (simp add: lower_def)
  have l': "a = [] \<or> \<not> token_char (last a)"
    using l by (cases a) simp_all
  show ?case using none Cons.IH [OF k' l'] by simp
qed

lemma scan_cash_first_token:
  assumes "list_all (\<lambda>m. \<not> contains ''cowoncy'' (lower m)) pre"
    and "\<not> contains ''cowoncy'' (lower a)" and "a = [] \<or> \<not> token_char (last a)"
    and "digit_group g" and "list_all digit_group gs"
    and "list_all is_space ws" and "lower kw = ''cowoncy''"
  shows "scan_cash cfg (pre @ (a @ join_groups g gs @ ws @ kw @ b) # post) s
         = record_cash cfg (join_groups g gs) s"
proof -
  let ?t = "join_groups g gs @ ws @ kw @ b"
  obtain d t' where t: "?t = d # t'" and d: "is_digit d"
    using assms(4) by (cases g) (auto simp: digit_group_def join_groups_def)
  have "re_search match_cash ?t = Some (join_groups g gs)"
    using match_cash_token [OF assms(4-7)] by (rule re_search_here)
  then have "re_search match_cash (a @ ?t) = Some (join_groups g gs)"
    using re_search_before_token [OF assms(2,3) d, of t'] t by simp
  then show ?thesis
    using scan_cash_skip [OF assms(1)] contains_keyword [OF assms(7)] by simp
qed

lemma scan_cash_no_match:
  "list_all (\<lambda>m. re_search match_cash m = None) ms \<Longrightarrow> scan_cash cfg ms s = (0, s)"
  by (induction ms) simp_all

lemma message_examples:
  "''You have 1,234,567 cowoncy'' = balance_message ''1'' [''234'', ''567'']"
  "''You have 0 cowoncy'' = balance_message ''0'' []"
  "''You have 500 cowoncy'' = balance_message ''500'' []"
  by (simp_all add: balance_message_def join_groups_def comma_groups_def)

text \<open>
  C8: \<open>check_cash\<close> goes through the batch in order. With no message that contains
  \<open>cowoncy\<close> (in any case) it answers with the sentinel \<open>0\<close> and leaves the state alone.
  Otherwise take the first message with the keyword and, in it, the first occurrence of
  the keyword (no keyword in the text \<open>a\<close> before the token), with the token right
  before it: the whole run of digits and commas (\<open>a\<close> does not end in one of them), made
  of groups of digits separated by commas, then optional white space, then the keyword
  in any case. The answer is the number the digits of the token denote, for every
  token up to \<open>2^53\<close>, the range in which \<open>float\<close> is exact. The text before the token
  may hold digits, such as a user name. On \<open>["You have 1,234,567 cowoncy"]\<close> the answer
  is 1234567.
\<close>

theorem check_cash_extracts_balance:
  "(list_all (\<lambda>m. \<not> contains ''cowoncy'' (lower m)) ms \<longrightarrow>
      check_cash cfg (Msgs ms) s = (0, s))
   \<and> (list_all (\<lambda>m. \<not> contains ''cowoncy'' (lower m)) pre
        \<and> \<not> contains ''cowoncy'' (lower a) \<and> (a = [] \<or> \<not> token_char (last a))
        \<and> digit_group g \<and> list_all digit_group gs
        \<and> list_all is_space ws \<and> lower kw = ''cowoncy''
        \<and> float_of_digits (concat (g # gs)) \<le> 2 ^ 53 \<longrightarrow>
      fst (check_cash cfg (Msgs (pre @ (a @ join_groups g gs @ ws @ kw @ b) # post)) s)
        = float_of_digits (concat (g # gs)))
   \<and> fst (check_cash cfg (Msgs [''You have 1,234,567 cowoncy'']) s) = 1234567"
proof (intro conjI impI)
  assume "list_all (\<lambda>m. \<not> contains ''cowoncy'' (lower m)) ms"
  then show "check_cash cfg (Msgs ms) s = (0, s)"
    by (simp add: check_cash_def scan_cash_no_keyword)
next
  assume h: "list_all (\<lambda>m. \<not> contains ''cowoncy'' (lower m)) pre
        \<and> \<not> contains ''cowoncy'' (lower a) \<and> (a = [] \<or> \<not> token_char (last a))
        \<and> digit_group g \<and> list_all digit_group gs
        \<and> list_all is_space ws \<and> lower kw = ''cowoncy''
        \<and> float_of_digits (concat (g # gs)) \<le> 2 ^ 53"
  have "scan_cash cfg (pre @ (a @ join_groups g gs @ ws @ kw @ b) # post) s
             = record_cash cfg (join_groups g gs) s"
    using h scan_cash_first_token [of pre a g gs ws kw cfg b post s] by blast
  moreover have "strip_commas (join_groups g gs) = concat (g # gs)"
    using h strip_commas_token [of g gs] by blast
  ultimately show "fst (check_cash cfg (Msgs (pre @ (a @ join_groups g gs @ ws @ kw @ b) # post)) s)
        = float_of_digits (concat (g # gs))"
    by (simp add: check_cash_def record_cash_value)
next
  have "check_cash cfg (Msgs [''You have 1,234,567 cowoncy'']) s
        = record_cash cfg (join_groups ''1'' [''234'', ''567'']) s"
    unfolding message_examples(1)
    by (rule check_cash_balance_message) (rule digit_groups_examples)+
  then show "fst (check_cash cfg (Msgs [''You have 1,234,567 cowoncy'']) s) = 1234567"
    by (simp add: record_cash_value float_of_digits_examples)
qed

lemma user_name_examples:
  "list_all (\<lambda>m. \<not> contains ''cowoncy'' (lower m)) [''hello'', ''w cf 10'']"
  "\<not> contains ''cowoncy'' (lower ''User42, you currently have '')"
  "\<not> token_char (last ''User42, you currently have '')"
  "digit_group ''5''"
  "list_all digit_group [''000'']"
  "list_all is_space '' ''"
  "lower ''COWONCY'' = ''cowoncy''"
  "float_of_digits (concat [''5'', ''000'']) = 5000"
  by code_simp+

theorem check_cash_extracts_balance_witness:
  "list_all (\<lambda>m. \<not> contains ''cowoncy'' (lower m)) [''hello'', ''w cf 10'']
   \<and> check_cash default_config (Msgs [''hello'', ''w cf 10'']) (init_engine 0) = (0, init_engine 0)
   \<and> \<not> contains ''cowoncy'' (lower ''User42, you currently have '')
   \<and> \<not> token_char (last ''User42, you currently have '')
   \<and> digit_group ''5'' \<and> list_all digit_group [''000'']
   \<and> list_all is_space '' '' \<and> lower ''COWONCY'' = ''cowoncy''
   \<and> float_of_digits (concat [''5'', ''000'']) \<le> 2 ^ 53
   \<and> fst (check_cash default_config
             (Msgs ([''hello'', ''w cf 10'']
                    @ (''User42, you currently have '' @ join_groups ''5'' [''000''] @ '' ''
                       @ ''COWONCY'' @ ''!'') # []))
             (init_engine 0)) = 5000"
proof -
  note e = user_name_examples
  have v: "float_of_digits (concat [''5'', ''000'']) \<le> 2 ^ 53"
    unfolding e(8) by simp
  note t = check_cash_extracts_balance [of "[''hello'', ''w cf 10'']" default_config "init_engine 0"
      "[''hello'', ''w cf 10'']" "''User42, you currently have ''" "''5''" "[''000'']" "'' ''"
      "''COWONCY''" "''!''" "[]"]
  have w1: "check_cash default_config (Msgs [''hello'', ''w cf 10'']) (init_engine 0) = (0, init_engine 0)"
    using t e(1) by blast
  have w2: "fst (check_cash default_config
             (Msgs ([''hello'', ''w cf 10'']
                    @ (''User42, you currently have '' @ join_groups ''5'' [''000''] @ '' ''
                       @ ''COWONCY'' @ ''!'') # []))
             (init_engine 0)) = float_of_digits (concat [''5'', ''000''])"
    using t e(1-7) v by blast
  show ?thesis
    using e(1-7) v w1 w2 [unfolded e(8)] by (intro conjI)
qed

text \<open>
  C10: when fetching the messages raises, or no message matches the currency pattern,
  \<open>check_cash\<close> returns \<open>0\<close> and the state is the one before the call; a genuine balance
  of zero returns the same value \<open>0\<close>.
\<close>

theorem check_cash_failure_atomic:
  "check_cash cfg Raises s = (0, s)
   \<and> (list_all (\<lambda>m. re_search match_cash m = None) ms \<longrightarrow> check_cash cfg (Msgs ms) s = (0, s))
   \<and> fst (check_cash cfg (Msgs [''You have 0 cowoncy'']) s) = 0"
proof (intro conjI impI)
  show "check_cash cfg Raises s = (0, s)"
    by (simp add: check_cash_def)
next
  assume "list_all (\<lambda>m. re_search match_cash m = None) ms"
  then show "check_cash cfg (Msgs ms) s = (0, s)"
    by (simp add: check_cash_def scan_cash_no_match)
next
  have "check_cash cfg (Msgs [''You have 0 cowoncy'']) s = record_cash cfg (join_groups ''0'' []) s"
    unfolding message_examples(2)
    by (rule check_cash_balance_message) (rule digit_groups_examples)+
  then show "fst (check_cash cfg (Msgs [''You have 0 cowoncy'']) s) = 0"
    by (simp add: record_cash_value float_of_digits_examples)
qed

theorem check_cash_failure_atomic_witness:
  "list_all (\<lambda>m. re_search match_cash m = None) [''no cowoncy here'', ''hello 12'']
   \<and> check_cash default_config (Msgs [''no cowoncy here'', ''hello 12'']) fresh_state = (0, fresh_state)"
proof -
  have a: "list_all (\<lambda>m. re_search match_cash m = None) [''no cowoncy here'', ''hello 12'']"
    by code_simp
  show ?thesis
    using a check_cash_failure_atomic [of default_config fresh_state "[''no cowoncy here'', ''hello 12'']"]
    by simp
qed









text \<open>
  A session in which the code itself sets the stop-loss flag (1,000 read, then 400: a
  loss of 60 percent), followed by a read of 1,000 and a risk check: the loss is back
  at 0 percent and the flag is still set.
\<close>

theorem risk_flags_sticky_witness:
  "stop_loss_triggered (run default_config losing_session (init_engine 0))
   \<and> stop_loss_triggered (run default_config recovering_session (run default_config losing_session (init_engine 0)))
   \<and> current_cash (run default_config recovering_session (run default_config losing_session (init_engine 0))) = 1000
   \<and> starting_balance (run default_config recovering_session (run default_config losing_session (init_engine 0))) = 1000
   \<and> profit_target_reached all_flags_state
   \<and> profit_target_reached (run default_config recovering_session all_flags_state)
   \<and> max_losses_reached all_flags_state
   \<and> max_losses_reached (run default_config recovering_session all_flags_state)"
proof -
  let ?s1 = "run default_config losing_session (init_engine 0)"
  have m1: "check_cash cfg (Msgs [balance_message ''1'' [''000'']]) s = record_cash cfg (join_groups ''1'' [''000'']) s" for cfg s
    by (rule check_cash_balance_message) (rule digit_groups_examples)+
  have m2: "check_cash cfg (Msgs [balance_message ''400'' []]) s = record_cash cfg (join_groups ''400'' []) s" for cfg s
    by (rule check_cash_balance_message) (rule digit_groups_examples)+
  have i: "starting_balance (init_engine 0) = 0" "\<not> stop_loss_triggered (init_engine 0)"
    by (simp_all add: init_engine_def)
  have d: "enable_stop_loss (risk_management default_config)"
    "stop_loss_percentage (risk_management default_config) = 50"
    by (simp_all add: default_config_def)
  have a: "stop_loss_triggered ?s1"
    using i d by (simp add: losing_session_def m1 m2 record_cash_stop_loss
        record_cash_starting_balance float_of_digits_examples Let_def)
  have b: "starting_balance ?s1 = 1000"
    using i by (simp add: losing_session_def m1 m2 record_cash_starting_balance float_of_digits_examples)
  have c: "current_cash (run default_config recovering_session ?s1) = 1000"
    by (simp add: recovering_session_def m1 record_cash_current_cash float_of_digits_examples
        check_risk_conditions_frame)
  have e: "starting_balance (run default_config recovering_session ?s1) = 1000"
    using b by (simp add: recovering_session_def m1 record_cash_starting_balance
        check_risk_conditions_frame)
  have f: "profit_target_reached all_flags_state" "max_losses_reached all_flags_state"
    by (simp_all add: all_flags_state_def)
  note t = risk_flags_sticky [of ?s1 default_config recovering_session]
  note u = risk_flags_sticky [of all_flags_state default_config recovering_session]
  show ?thesis using a c e f t u by blast
qed

section \<open>Counting bets\<close>

lemma settle_counters:
  "total_bets (snd (snd (settle h s))) = total_bets s"
  "fst (settle h s) \<noteq> None"
  "total_wins (snd (snd (settle h s))) + total_losses (snd (snd (settle h s)))
     = total_wins s + total_losses s + 1"
  by (cases h; simp add: Let_def)+

lemma placed_counters:
  "total_bets (placed amount s) = total_bets s + 1"
  "total_wins (placed amount s) = total_wins s"
  "total_losses (placed amount s) = total_losses s"
  "consecutive_losses (placed amount s) = consecutive_losses s"
  by (simp_all add: placed_def)

lemma place_coinflip_bet_total_bets:
  "total_bets (snd (snd (place_coinflip_bet cl amount s))) = total_bets s + 1"
  using place_coinflip_bet_cases [of cl amount s]
  by (auto simp: settle_counters placed_counters)

lemma place_coinflip_bet_unknown:
  assumes "fst (place_coinflip_bet cl amount s) = None"
  shows "place_coinflip_bet cl amount s = (None, None, placed amount s)"
proof -
  from place_coinflip_bet_cases [of cl amount s] show ?thesis
  proof
    assume "place_coinflip_bet cl amount s = (None, None, placed amount s)"
    then show ?thesis .
  next
    assume "\<exists>h. place_coinflip_bet cl amount s = settle h (placed amount s)"
    then obtain h where "place_coinflip_bet cl amount s = settle h (placed amount s)" ..
    then have "fst (place_coinflip_bet cl amount s) \<noteq> None"
      by (simp add: settle_counters(2))
    with assms show ?thesis by contradiction
  qed
qed

lemma place_coinflip_bet_resolved:
  assumes "fst (place_coinflip_bet cl amount s) \<noteq> None"
  shows "total_wins (snd (snd (place_coinflip_bet cl amount s)))
         + total_losses (snd (snd (place_coinflip_bet cl amount s)))
         = total_wins s + total_losses s + 1"
  using place_coinflip_bet_cases [of cl amount s] assms
  by (auto simp: settle_counters placed_counters)

lemma step_counters:
  "total_bets (step cfg x s) - total_wins (step cfg x s) - total_losses (step cfg x s)
   = total_bets s - total_wins s - total_losses s
     + int (count_list (bet_results cfg [x] s) None)"
proof (cases x)
  case (CheckCash resp)
  then show ?thesis by (simp add: check_cash_counters)
next
  case (PlaceBet cl amount)
  show ?thesis
  proof (cases "fst (place_coinflip_bet cl amount s) = None")
    case True
    then show ?thesis
      using PlaceBet place_coinflip_bet_unknown [OF True] by (simp add: placed_counters)
  next
    case False
    then show ?thesis
      using PlaceBet place_coinflip_bet_resolved [OF False]
        place_coinflip_bet_total_bets [of cl amount s] by simp
  qed
next
  case RiskCheck
  then show ?thesis by (simp add: check_risk_conditions_frame)
qed

lemma bet_results_Cons:
  "bet_results cfg (x # xs) s = bet_results cfg [x] s @ bet_results cfg xs (step cfg x s)"
  by (cases x) simp_all

lemma run_counters:
  "total_bets (run cfg ops s) - total_wins (run cfg ops s) - total_losses (run cfg ops s)
   = total_bets s - total_wins s - total_losses s
     + int (count_list (bet_results cfg ops s) None)"
proof (induction ops arbitrary: s)
  case Nil
  show ?case by simp
next
  case (Cons x xs)
  have "count_list (bet_results cfg (x # xs) s) None
        = count_list (bet_results cfg [x] s) None + count_list (bet_results cfg xs (step cfg x s)) None"
    by (subst bet_results_Cons) simp
  then show ?case
    using Cons.IH [of "step cfg x s"] step_counters [of cfg x s] by simp
qed

text \<open>
  C6: every call of \<open>place_coinflip_bet\<close> adds exactly one to \<open>total_bets\<close>, whatever the
  client answers afterwards; a call that returns \<open>None\<close> leaves \<open>total_wins\<close>,
  \<open>total_losses\<close> and \<open>consecutive_losses\<close> as they were; and after every session
  \<open>total_bets\<close> is \<open>total_wins + total_losses\<close> plus the number of bets that returned
  \<open>None\<close>.
\<close>

theorem total_bets_accounting:
  "total_bets (snd (snd (place_coinflip_bet cl amount s))) = total_bets s + 1
   \<and> (fst (place_coinflip_bet cl amount s) = None \<longrightarrow>
        total_wins (snd (snd (place_coinflip_bet cl amount s))) = total_wins s
        \<and> total_losses (snd (snd (place_coinflip_bet cl amount s))) = total_losses s
        \<and> consecutive_losses (snd (snd (place_coinflip_bet cl amount s))) = consecutive_losses s)
   \<and> total_bets (run cfg ops (init_engine t0))
      = total_wins (run cfg ops (init_engine t0)) + total_losses (run cfg ops (init_engine t0))
        + int (count_list (bet_results cfg ops (init_engine t0)) None)"
proof (intro conjI impI)
  show "total_bets (snd (snd (place_coinflip_bet cl amount s))) = total_bets s + 1"
    by (rule place_coinflip_bet_total_bets)
next
  assume u: "fst (place_coinflip_bet cl amount s) = None"
  show "total_wins (snd (snd (place_coinflip_bet cl amount s))) = total_wins s"
    by (simp add: place_coinflip_bet_unknown [OF u] placed_counters)
  show "total_losses (snd (snd (place_coinflip_bet cl amount s))) = total_losses s"
    by (simp add: place_coinflip_bet_unknown [OF u] placed_counters)
  show "consecutive_losses (snd (snd (place_coinflip_bet cl amount s))) = consecutive_losses s"
    by (simp add: place_coinflip_bet_unknown [OF u] placed_counters)
next
  have "total_bets (init_engine t0) - total_wins (init_engine t0) - total_losses (init_engine t0) = 0"
    by (simp add: init_engine_def)
  then show "total_bets (run cfg ops (init_engine t0))
      = total_wins (run cfg ops (init_engine t0)) + total_losses (run cfg ops (init_engine t0))
        + int (count_list (bet_results cfg ops (init_engine t0)) None)"
    using run_counters [of cfg ops "init_engine t0"] by simp
qed

theorem total_bets_accounting_witness:
  "fst (place_coinflip_bet silent_client 10 recovery_state) = None
   \<and> total_bets (snd (snd (place_coinflip_bet silent_client 10 recovery_state))) = 1
   \<and> total_wins (snd (snd (place_coinflip_bet silent_client 10 recovery_state))) = 0
   \<and> total_losses (snd (snd (place_coinflip_bet silent_client 10 recovery_state))) = 0
   \<and> consecutive_losses (snd (snd (place_coinflip_bet silent_client 10 recovery_state))) = 2"
proof -
  have a: "fst (place_coinflip_bet silent_client 10 recovery_state) = None"
    by (simp add: place_coinflip_bet_def silent_client_def Let_def)
  have b: "total_bets recovery_state = 0" "total_wins recovery_state = 0"
    "total_losses recovery_state = 0" "consecutive_losses recovery_state = 2"
    by (simp_all add: recovery_state_def init_engine_def)
  show ?thesis
    using a b total_bets_accounting [of silent_client 10 recovery_state default_config "[]" 0]
    by simp
qed

section \<open>Reading the outcome of a bet\<close>

lemma scan_updated_skip:
  "list_all no_marker upre \<Longrightarrow> scan_updated amount (upre @ us) = scan_updated amount us"
  by (induction upre) (simp_all add: no_marker_def Let_def)



lemma scan_primary_skip:
  "list_all (\<lambda>m. \<not> spend_spin m) pre \<Longrightarrow>
   scan_primary cl n amount (pre @ ms) = scan_primary cl n amount ms"
  by (induction pre) (auto simp: spend_spin_def Let_def)


lemma scan_primary_first:
  assumes "list_all (\<lambda>m. \<not> spend_spin m) pre" and "spend_spin m0"
    and "cl n = Msgs (upre @ u # urest)" and "list_all no_marker upre"
    and "scan_updated amount [u] = Some h"
  shows "scan_primary cl n amount (pre @ m0 # rest) = (Found h, Suc n)"
proof -
  have "scan_updated amount (u # urest) = Some h"
    using assms(5) by (simp add: Let_def split: if_splits)
  then have "scan_updated amount (upre @ u # urest) = Some h"
    using scan_updated_skip [OF assms(4)] by simp
  then have "scan_primary cl n amount (m0 # rest) = (Found h, Suc n)"
    using assms(2,3) by (simp add: spend_spin_def Let_def)
  then show ?thesis using scan_primary_skip [OF assms(1)] by simp
qed

lemma place_coinflip_bet_first:
  assumes "cl 0 = Msgs (pre @ m0 # rest)"
    and "list_all (\<lambda>m. \<not> spend_spin m) pre" and "spend_spin m0"
    and "cl 1 = Msgs (upre @ u # urest)" and "list_all no_marker upre"
    and "scan_updated (round_py amount) [u] = Some h"
  shows "place_coinflip_bet cl amount s = settle h (placed amount s)"
  using assms(1) scan_primary_first [where cl = cl and n = 1 and rest = rest, OF assms(2-6)]
  by (simp add: place_coinflip_bet_def placed_def Let_def)



lemma outcome_examples:
  "spend_spin spend_message"
  "contains ''you won'' (lower ''You won **200**!!'')"
  "re_search match_won (lower ''You won **200**!!'') = Some ''200''"
  "strip_commas ''200'' = ''200''"
  "contains ''you won'' (lower ''The coin spins... and you won a lot!!'')"
  "re_search match_won (lower ''The coin spins... and you won a lot!!'') = None"
  "\<not> contains ''you won'' (lower loss_message)"
  "contains ''lost it all'' (lower loss_message)"
  "list_all no_marker [''hello there'', ''w hunt'', ''nice weather'']"
  by code_simp+

lemma round_py_numeral: "round_py (numeral n) = numeral n"
  using round_py_of_int [of "numeral n"] by simp

lemma outcome_client_calls:
  "outcome_client x 0 = Msgs ([] @ spend_message # [])"
  "outcome_client x 1 = Msgs ([] @ x # [])"
  "outcome_client x (Suc 0) = Msgs ([] @ x # [])"
  by (simp_all add: outcome_client_def)



section \<open>The end-to-end scenario\<close>

lemma scenario_config_values:
  "initial_bet_percentage (betting scenario_config) = 1"
  "loss_multiplier (betting scenario_config) = 5 / 2"
  "min_bet_amount (betting scenario_config) = 1"
  "max_consecutive_losses (betting scenario_config) = 10"
  "enable_stop_loss (risk_management scenario_config)"
  "stop_loss_percentage (risk_management scenario_config) = 50"
  "\<not> enable_profit_target (risk_management scenario_config)"
  "\<not> enable_max_bet_limit (risk_management scenario_config)"
  "\<not> enable_session_time_limit (risk_management scenario_config)"
  by (simp_all add: scenario_config_def default_config_def)

lemma first_read_session:
  "check_cash scenario_config (Msgs [balance_message ''1'' [''000'']]) (init_engine 0)
   = (1000, session_state 1000 0 0 0 0 0)"
proof -
  have "check_cash scenario_config (Msgs [balance_message ''1'' [''000'']]) (init_engine 0)
        = record_cash scenario_config (join_groups ''1'' [''000'']) (init_engine 0)"
    by (rule check_cash_balance_message) (rule digit_groups_examples)+
  then show ?thesis
    by (simp add: record_cash_def Let_def float_of_digits_examples check_risk_conditions_def
        check_max_losses_def check_profit_target_def check_stop_loss_def scenario_config_values
        init_engine_def session_state_def)
qed

lemma check_cash_session:
  assumes "digit_group g" and "list_all digit_group gs"
    and "float_of_digits (strip_commas (join_groups g gs)) = c'" and "500 < c'" and "k < 10"
  shows "check_cash scenario_config (Msgs [balance_message g gs]) (session_state c b k nb nw nl)
         = (c', session_state c' b k nb nw nl)"
proof -
  have "check_cash scenario_config (Msgs [balance_message g gs]) (session_state c b k nb nw nl)
        = record_cash scenario_config (join_groups g gs) (session_state c b k nb nw nl)"
    using assms(1,2) by (rule check_cash_balance_message)
  moreover have "\<not> 50 \<le> (1000 - c') / 1000 * 100"
    using assms(4) by simp
  ultimately show ?thesis
    using assms(3,5)
    by (simp add: record_cash_def Let_def check_risk_conditions_def
        check_max_losses_def check_profit_target_def check_stop_loss_def scenario_config_values
        session_state_def)
qed

lemma should_stop_session:
  "0 < c \<Longrightarrow> should_stop_betting scenario_config t (session_state c b k nb nw nl) = (False, [])"
  by (simp add: should_stop_betting_def scenario_config_values session_state_def)

lemma calculate_session:
  "calculate_bet_amount exact_arith scenario_config (session_state c b k nb nw nl)
   = round_py (max (if k = 0 then c * (1 / 100) else of_int b * (5 / 2)) 1)"
  by (simp add: calculate_bet_amount_def base_bet_def exact_arith_def Let_def scenario_config_values
      session_state_def)

lemma lost_bet_session:
  "place_coinflip_bet (outcome_client loss_message) a (session_state c b k nb nw nl)
   = (Some False, None, session_state c (round_py a) (k + 1) (nb + 1) nw (nl + 1))"
proof -
  have "scan_updated (round_py a) [loss_message] = Some Lost"
    by (simp add: Let_def outcome_examples)
  then have "place_coinflip_bet (outcome_client loss_message) a (session_state c b k nb nw nl)
             = settle Lost (placed a (session_state c b k nb nw nl))"
    using place_coinflip_bet_first [where cl = "outcome_client loss_message" and pre = "[]"
        and ?m0.0 = spend_message and rest = "[]" and upre = "[]" and u = loss_message
        and urest = "[]" and amount = a, OF outcome_client_calls(1) _ outcome_examples(1)
        outcome_client_calls(2)]
    by simp
  then show ?thesis by (simp add: placed_def session_state_def Let_def)
qed

lemma won_bet_examples:
  "contains ''you won'' (lower ''The coin spins... and you won **310**!!'')"
  "re_search match_won (lower ''The coin spins... and you won **310**!!'') = Some ''310''"
  "strip_commas ''310'' = ''310''"
  by code_simp+

lemma won_bet_session:
  "place_coinflip_bet (outcome_client ''The coin spins... and you won **310**!!'') a
     (session_state c b k nb nw nl)
   = (Some True, Some (PStr ''310''),
      session_state c (round_py a) (if 0 < k then 0 else k) (nb + 1) (nw + 1) nl)"
proof -
  let ?u = "''The coin spins... and you won **310**!!''"
  have "scan_updated (round_py a) [?u] = Some (Won (PStr ''310''))"
    by (simp add: Let_def won_bet_examples)
  then have "place_coinflip_bet (outcome_client ?u) a (session_state c b k nb nw nl)
             = settle (Won (PStr ''310'')) (placed a (session_state c b k nb nw nl))"
    using place_coinflip_bet_first [where cl = "outcome_client ?u" and pre = "[]"
        and ?m0.0 = spend_message and rest = "[]" and upre = "[]" and u = ?u
        and urest = "[]" and amount = a, OF outcome_client_calls(1) _ outcome_examples(1)
        outcome_client_calls(2)]
    by simp
  then show ?thesis by (simp add: placed_def session_state_def Let_def)
qed

lemma betting_cycle_session:
  assumes "digit_group g" and "list_all digit_group gs"
    and "float_of_digits (strip_commas (join_groups g gs)) = c'" and "500 < c'"
    and "0 < c" and "k < 10"
    and "cap_to_balance (calculate_bet_amount exact_arith scenario_config (session_state c' b k nb nw nl)) c' = a"
    and "place_coinflip_bet (outcome_client outcome) a (session_state c' b k nb nw nl) = (r, w, s')"
  shows "betting_cycle exact_arith scenario_config (cycle_with g gs outcome) (session_state c b k nb nw nl)
         = (Bet a r, s')"
  using should_stop_session [OF assms(5)] check_cash_session [OF assms(1-4,6)] assms(4,7,8)
  by (simp add: betting_cycle_def cycle_with_def)

lemma rounding_examples:
  "round_py (125 / 2) = 62" "round_py (529 / 50) = 11"
  by code_simp+

lemma scenario_tokens:
  "digit_group ''990''" "digit_group ''965''" "digit_group ''903''" "list_all digit_group [''058'']"
  "digit_group ''000''" "digit_group ''058''"
  "float_of_digits (strip_commas (join_groups ''990'' [])) = 990"
  "float_of_digits (strip_commas (join_groups ''965'' [])) = 965"
  "float_of_digits (strip_commas (join_groups ''903'' [])) = 903"
  "float_of_digits (strip_commas (join_groups ''1'' [''058''])) = 1058"
  by code_simp+

lemmas scenario_eval = digit_groups_examples float_of_digits_examples scenario_tokens
  calculate_session cap_to_balance_def round_py_numeral rounding_examples
  lost_bet_session won_bet_session

lemma scenario_cycle_1:
  "betting_cycle exact_arith scenario_config (cycle_with ''1'' [''000''] loss_message) (session_state 1000 0 0 0 0 0)
   = (Bet 10 (Some False), session_state 1000 10 1 1 0 1)"
  by (rule betting_cycle_session [where c' = 1000 and w = None]) (simp_all add: scenario_eval)

lemma scenario_cycle_2:
  "betting_cycle exact_arith scenario_config (cycle_with ''990'' [] loss_message) (session_state 1000 10 1 1 0 1)
   = (Bet 25 (Some False), session_state 990 25 2 2 0 2)"
  by (rule betting_cycle_session [where c' = 990 and w = None]) (simp_all add: scenario_eval)

lemma scenario_cycle_3:
  "betting_cycle exact_arith scenario_config (cycle_with ''965'' [] loss_message) (session_state 990 25 2 2 0 2)
   = (Bet 62 (Some False), session_state 965 62 3 3 0 3)"
  by (rule betting_cycle_session [where c' = 965 and w = None]) (simp_all add: scenario_eval)

lemma scenario_cycle_4:
  "betting_cycle exact_arith scenario_config
     (cycle_with ''903'' [] ''The coin spins... and you won **310**!!'') (session_state 965 62 3 3 0 3)
   = (Bet 155 (Some True), session_state 903 155 0 4 1 3)"
  by (rule betting_cycle_session [where c' = 903 and w = "Some (PStr ''310'')"])
    (simp_all add: scenario_eval)

lemma scenario_cycle_5:
  "betting_cycle exact_arith scenario_config (cycle_with ''1'' [''058''] loss_message) (session_state 903 155 0 4 1 3)
   = (Bet 11 (Some False), session_state 1058 11 1 5 1 4)"
  by (rule betting_cycle_session [where c' = 1058 and w = None]) (simp_all add: scenario_eval)

lemma scenario_run_4:
  "scenario_run 4
   = ([Bet 10 (Some False), Bet 25 (Some False), Bet 62 (Some False), Bet 155 (Some True)],
      session_state 903 155 0 4 1 3)"
  by (simp add: scenario_run_def run_betting_strategy_def scenario_inputs_def first_read_session
      scenario_cycle_1 scenario_cycle_2 scenario_cycle_3 scenario_cycle_4)

lemma scenario_run_5:
  "scenario_run 5
   = ([Bet 10 (Some False), Bet 25 (Some False), Bet 62 (Some False), Bet 155 (Some True),
       Bet 11 (Some False)],
      session_state 1058 11 1 5 1 4)"
  by (simp add: scenario_run_def run_betting_strategy_def scenario_inputs_def first_read_session
      scenario_cycle_1 scenario_cycle_2 scenario_cycle_3 scenario_cycle_4 scenario_cycle_5)

text \<open>
  C2, as stated, fails: in the scenario the bets placed are 10, 25, 62 and 155, not
  10, 25, 63 and 158. The third base bet is \<open>25 \<times> 2.5 = 62.5\<close>, a tie, which
  \<open>round\<close> sends to the even neighbour 62, and the fourth is \<open>62 \<times> 2.5 = 155\<close>.
\<close>

theorem scenario_bets_not_as_claimed:
  "bet_amounts (fst (scenario_run 4)) = [10, 25, 62, 155]
   \<and> bet_amounts (fst (scenario_run 4)) \<noteq> [10, 25, 63, 158]
   \<and> round_py (25 * (5 / 2)) = 62"
  by (simp add: scenario_run_4 rounding_examples)

text \<open>
  C2, amended: with a starting balance of 1000, an initial bet of 1 percent, a
  multiplier of 2.5 and no clamp binding, the bets over three losses and a win are
  exactly 10, 25, 62 and 155; after the win the loss streak is 0 and the next bet is
  again 1 percent of the balance then read, rounded: 11 for a balance of 1058.
\<close>

theorem scenario_bets:
  "fst (scenario_run 4)
     = [Bet 10 (Some False), Bet 25 (Some False), Bet 62 (Some False), Bet 155 (Some True)]
   \<and> consecutive_losses (snd (scenario_run 4)) = 0
   \<and> bet_amounts (fst (scenario_run 5)) = [10, 25, 62, 155, 11]
   \<and> current_cash (snd (scenario_run 5)) = 1058
   \<and> round_py (1058 * (initial_bet_percentage (betting scenario_config) / 100)) = 11"
  by (simp add: scenario_run_4 scenario_run_5 session_state_def scenario_config_values
      rounding_examples)

end
